theory Spec2Isabelle
  imports Main "HOL-Library.Word" "HOL-Library.Sublist"
begin

unbundle bit_operations_syntax

section \<open>Values of the JavaScript runtime\<close>

text \<open>
  The plugin \<^verbatim>\<open>peertube-plugin-auth-openid-connect/main.js\<close> runs on Node.js.
  A JavaScript string is a sequence of UTF-16 code units, a \<^verbatim>\<open>Buffer\<close> a sequence
  of bytes.  String constants of the source are written as Isabelle strings and embedded
  with \<open>js\<close>.
\<close>

type_synonym byte = "8 word"
type_synonym jsstring = "16 word list"

definition js :: "string \<Rightarrow> jsstring" where
  "js s = map (\<lambda>c. of_nat (of_char c)) s"

text \<open>
  Errors thrown by the runtime and by the libraries the plugin calls.  \<open>LibraryError\<close>
  stands for a rejection of an external collaborator (random source, settings store,
  identity provider, host), whose message is not interpreted.
\<close>

datatype error =
    TypeError
  | InvalidKeyLength
  | InvalidIV
  | WrongFinalBlockLength
  | BadDecrypt
  | URIError
  | LibraryError string

subsection \<open>Hexadecimal encoding of buffers\<close>

text \<open>\<^verbatim>\<open>buf.toString('hex')\<close>: two lower-case digits per byte.\<close>

definition hex_digit :: "nat \<Rightarrow> 16 word" where
  "hex_digit n = (if n < 10 then of_nat (48 + n) else of_nat (87 + n))"

definition hex_of_byte :: "byte \<Rightarrow> jsstring" where
  "hex_of_byte b = [hex_digit (unat b div 16), hex_digit (unat b mod 16)]"

definition to_hex :: "byte list \<Rightarrow> jsstring" where
  "to_hex bs = concat (map hex_of_byte bs)"

text \<open>
  \<^verbatim>\<open>Buffer.from(s, 'hex')\<close>: digits of either case are read in pairs; decoding stops
  at the first pair that is not two hexadecimal digits, and a trailing single character
  is dropped.  Of every code unit only the low byte is read, so that a code unit above
  U+00FF counts as the digit its low byte is.
\<close>

definition hex_val :: "16 word \<Rightarrow> nat option" where
  "hex_val c =
     (let b = unat c mod 256 in
      if 48 \<le> b \<and> b \<le> 57 then Some (b - 48)
      else if 97 \<le> b \<and> b \<le> 102 then Some (b - 87)
      else if 65 \<le> b \<and> b \<le> 70 then Some (b - 55)
      else None)"

fun from_hex :: "jsstring \<Rightarrow> byte list" where
  "from_hex (a # b # rest) =
     (case hex_val a of
        None \<Rightarrow> []
      | Some x \<Rightarrow>
          (case hex_val b of
             None \<Rightarrow> []
           | Some y \<Rightarrow> of_nat (16 * x + y) # from_hex rest))"
| "from_hex _ = []"

subsection \<open>UTF-8 encoding and decoding of strings\<close>

text \<open>
  \<^verbatim>\<open>Buffer.from(s, 'utf8')\<close>: a surrogate pair is one code point of four bytes, a
  lone surrogate is written as U+FFFD.
\<close>

definition is_high_surrogate :: "16 word \<Rightarrow> bool" where
  "is_high_surrogate c \<longleftrightarrow> 0xD800 \<le> c \<and> c \<le> 0xDBFF"

definition is_low_surrogate :: "16 word \<Rightarrow> bool" where
  "is_low_surrogate c \<longleftrightarrow> 0xDC00 \<le> c \<and> c \<le> 0xDFFF"

definition utf8_of_code_point :: "nat \<Rightarrow> byte list" where
  "utf8_of_code_point n =
     (if n < 0x80 then [of_nat n]
      else if n < 0x800 then [of_nat (0xC0 + n div 64), of_nat (0x80 + n mod 64)]
      else if n < 0x10000 then
        [of_nat (0xE0 + n div 4096), of_nat (0x80 + n div 64 mod 64), of_nat (0x80 + n mod 64)]
      else
        [of_nat (0xF0 + n div 262144), of_nat (0x80 + n div 4096 mod 64),
         of_nat (0x80 + n div 64 mod 64), of_nat (0x80 + n mod 64)])"

fun utf8_encode :: "jsstring \<Rightarrow> byte list" where
  "utf8_encode [] = []"
| "utf8_encode [c] =
     (if is_high_surrogate c \<or> is_low_surrogate c then [0xEF, 0xBF, 0xBD]
      else utf8_of_code_point (unat c))"
| "utf8_encode (c # d # rest) =
     (if is_high_surrogate c \<and> is_low_surrogate d then
        utf8_of_code_point (0x10000 + (unat c - 0xD800) * 1024 + (unat d - 0xDC00))
          @ utf8_encode rest
      else if is_high_surrogate c \<or> is_low_surrogate c then
        [0xEF, 0xBF, 0xBD] @ utf8_encode (d # rest)
      else utf8_of_code_point (unat c) @ utf8_encode (d # rest))"

text \<open>
  Decoding to a string (\<^verbatim>\<open>'utf8'\<close> output encoding): every maximal ill-formed
  subsequence becomes one U+FFFD, and a code point above U+FFFF a surrogate pair.
\<close>

definition code_units_of :: "nat \<Rightarrow> jsstring" where
  "code_units_of n =
     (if n < 0x10000 then [of_nat n]
      else [of_nat (0xD800 + (n - 0x10000) div 1024), of_nat (0xDC00 + (n - 0x10000) mod 1024)])"

definition is_cont :: "byte \<Rightarrow> bool" where
  "is_cont b \<longleftrightarrow> 0x80 \<le> b \<and> b \<le> 0xBF"

definition second_ok :: "byte \<Rightarrow> byte \<Rightarrow> bool" where
  "second_ok lead b =
     (if lead = 0xE0 then 0xA0 \<le> b \<and> b \<le> 0xBF
      else if lead = 0xED then 0x80 \<le> b \<and> b \<le> 0x9F
      else if lead = 0xF0 then 0x90 \<le> b \<and> b \<le> 0xBF
      else if lead = 0xF4 then 0x80 \<le> b \<and> b \<le> 0x8F
      else is_cont b)"

definition low6 :: "byte \<Rightarrow> nat" where
  "low6 b = unat b mod 64"

fun utf8_decode :: "byte list \<Rightarrow> jsstring" where
  "utf8_decode [] = []"
| "utf8_decode (b # bs) =
     (if b < 0x80 then ucast b # utf8_decode bs
      else if 0xC2 \<le> b \<and> b \<le> 0xDF then
        (case bs of
           [] \<Rightarrow> [0xFFFD]
         | c1 # r1 \<Rightarrow>
             if is_cont c1
             then code_units_of ((unat b - 0xC0) * 64 + low6 c1) @ utf8_decode r1
             else 0xFFFD # utf8_decode bs)
      else if 0xE0 \<le> b \<and> b \<le> 0xEF then
        (case bs of
           [] \<Rightarrow> [0xFFFD]
         | c1 # r1 \<Rightarrow>
             if second_ok b c1 then
               (case r1 of
                  [] \<Rightarrow> [0xFFFD]
                | c2 # r2 \<Rightarrow>
                    if is_cont c2
                    then code_units_of ((unat b - 0xE0) * 4096 + low6 c1 * 64 + low6 c2)
                           @ utf8_decode r2
                    else 0xFFFD # utf8_decode r1)
             else 0xFFFD # utf8_decode bs)
      else if 0xF0 \<le> b \<and> b \<le> 0xF4 then
        (case bs of
           [] \<Rightarrow> [0xFFFD]
         | c1 # r1 \<Rightarrow>
             if second_ok b c1 then
               (case r1 of
                  [] \<Rightarrow> [0xFFFD]
                | c2 # r2 \<Rightarrow>
                    if is_cont c2 then
                      (case r2 of
                         [] \<Rightarrow> [0xFFFD]
                       | c3 # r3 \<Rightarrow>
                           if is_cont c3
                           then code_units_of
                                  ((unat b - 0xF0) * 262144 + low6 c1 * 4096 + low6 c2 * 64 + low6 c3)
                                  @ utf8_decode r3
                           else 0xFFFD # utf8_decode r2)
                    else 0xFFFD # utf8_decode r1)
             else 0xFFFD # utf8_decode bs)
      else 0xFFFD # utf8_decode bs)"

section \<open>The cipher behind \<^verbatim>\<open>crypto.createCipheriv('aes256', key, iv)\<close>\<close>

text \<open>
  Node.js resolves the algorithm name \<^verbatim>\<open>aes256\<close> to AES-256 in CBC mode with PKCS#7
  padding.  The block cipher follows FIPS 197 (Nk = 8, Nr = 14), the mode SP 800-38A.
  A block is a list of 16 bytes in the order of the input (column by column of the state).
\<close>

definition sbox_table :: "byte list" where
  "sbox_table =
    [
     0x63, 0x7c, 0x77, 0x7b, 0xf2, 0x6b, 0x6f, 0xc5, 0x30, 0x01, 0x67, 0x2b, 0xfe, 0xd7, 0xab, 0x76,
     0xca, 0x82, 0xc9, 0x7d, 0xfa, 0x59, 0x47, 0xf0, 0xad, 0xd4, 0xa2, 0xaf, 0x9c, 0xa4, 0x72, 0xc0,
     0xb7, 0xfd, 0x93, 0x26, 0x36, 0x3f, 0xf7, 0xcc, 0x34, 0xa5, 0xe5, 0xf1, 0x71, 0xd8, 0x31, 0x15,
     0x04, 0xc7, 0x23, 0xc3, 0x18, 0x96, 0x05, 0x9a, 0x07, 0x12, 0x80, 0xe2, 0xeb, 0x27, 0xb2, 0x75,
     0x09, 0x83, 0x2c, 0x1a, 0x1b, 0x6e, 0x5a, 0xa0, 0x52, 0x3b, 0xd6, 0xb3, 0x29, 0xe3, 0x2f, 0x84,
     0x53, 0xd1, 0x00, 0xed, 0x20, 0xfc, 0xb1, 0x5b, 0x6a, 0xcb, 0xbe, 0x39, 0x4a, 0x4c, 0x58, 0xcf,
     0xd0, 0xef, 0xaa, 0xfb, 0x43, 0x4d, 0x33, 0x85, 0x45, 0xf9, 0x02, 0x7f, 0x50, 0x3c, 0x9f, 0xa8,
     0x51, 0xa3, 0x40, 0x8f, 0x92, 0x9d, 0x38, 0xf5, 0xbc, 0xb6, 0xda, 0x21, 0x10, 0xff, 0xf3, 0xd2,
     0xcd, 0x0c, 0x13, 0xec, 0x5f, 0x97, 0x44, 0x17, 0xc4, 0xa7, 0x7e, 0x3d, 0x64, 0x5d, 0x19, 0x73,
     0x60, 0x81, 0x4f, 0xdc, 0x22, 0x2a, 0x90, 0x88, 0x46, 0xee, 0xb8, 0x14, 0xde, 0x5e, 0x0b, 0xdb,
     0xe0, 0x32, 0x3a, 0x0a, 0x49, 0x06, 0x24, 0x5c, 0xc2, 0xd3, 0xac, 0x62, 0x91, 0x95, 0xe4, 0x79,
     0xe7, 0xc8, 0x37, 0x6d, 0x8d, 0xd5, 0x4e, 0xa9, 0x6c, 0x56, 0xf4, 0xea, 0x65, 0x7a, 0xae, 0x08,
     0xba, 0x78, 0x25, 0x2e, 0x1c, 0xa6, 0xb4, 0xc6, 0xe8, 0xdd, 0x74, 0x1f, 0x4b, 0xbd, 0x8b, 0x8a,
     0x70, 0x3e, 0xb5, 0x66, 0x48, 0x03, 0xf6, 0x0e, 0x61, 0x35, 0x57, 0xb9, 0x86, 0xc1, 0x1d, 0x9e,
     0xe1, 0xf8, 0x98, 0x11, 0x69, 0xd9, 0x8e, 0x94, 0x9b, 0x1e, 0x87, 0xe9, 0xce, 0x55, 0x28, 0xdf,
     0x8c, 0xa1, 0x89, 0x0d, 0xbf, 0xe6, 0x42, 0x68, 0x41, 0x99, 0x2d, 0x0f, 0xb0, 0x54, 0xbb, 0x16
    ]"

definition inv_sbox_table :: "byte list" where
  "inv_sbox_table =
    [
     0x52, 0x09, 0x6a, 0xd5, 0x30, 0x36, 0xa5, 0x38, 0xbf, 0x40, 0xa3, 0x9e, 0x81, 0xf3, 0xd7, 0xfb,
     0x7c, 0xe3, 0x39, 0x82, 0x9b, 0x2f, 0xff, 0x87, 0x34, 0x8e, 0x43, 0x44, 0xc4, 0xde, 0xe9, 0xcb,
     0x54, 0x7b, 0x94, 0x32, 0xa6, 0xc2, 0x23, 0x3d, 0xee, 0x4c, 0x95, 0x0b, 0x42, 0xfa, 0xc3, 0x4e,
     0x08, 0x2e, 0xa1, 0x66, 0x28, 0xd9, 0x24, 0xb2, 0x76, 0x5b, 0xa2, 0x49, 0x6d, 0x8b, 0xd1, 0x25,
     0x72, 0xf8, 0xf6, 0x64, 0x86, 0x68, 0x98, 0x16, 0xd4, 0xa4, 0x5c, 0xcc, 0x5d, 0x65, 0xb6, 0x92,
     0x6c, 0x70, 0x48, 0x50, 0xfd, 0xed, 0xb9, 0xda, 0x5e, 0x15, 0x46, 0x57, 0xa7, 0x8d, 0x9d, 0x84,
     0x90, 0xd8, 0xab, 0x00, 0x8c, 0xbc, 0xd3, 0x0a, 0xf7, 0xe4, 0x58, 0x05, 0xb8, 0xb3, 0x45, 0x06,
     0xd0, 0x2c, 0x1e, 0x8f, 0xca, 0x3f, 0x0f, 0x02, 0xc1, 0xaf, 0xbd, 0x03, 0x01, 0x13, 0x8a, 0x6b,
     0x3a, 0x91, 0x11, 0x41, 0x4f, 0x67, 0xdc, 0xea, 0x97, 0xf2, 0xcf, 0xce, 0xf0, 0xb4, 0xe6, 0x73,
     0x96, 0xac, 0x74, 0x22, 0xe7, 0xad, 0x35, 0x85, 0xe2, 0xf9, 0x37, 0xe8, 0x1c, 0x75, 0xdf, 0x6e,
     0x47, 0xf1, 0x1a, 0x71, 0x1d, 0x29, 0xc5, 0x89, 0x6f, 0xb7, 0x62, 0x0e, 0xaa, 0x18, 0xbe, 0x1b,
     0xfc, 0x56, 0x3e, 0x4b, 0xc6, 0xd2, 0x79, 0x20, 0x9a, 0xdb, 0xc0, 0xfe, 0x78, 0xcd, 0x5a, 0xf4,
     0x1f, 0xdd, 0xa8, 0x33, 0x88, 0x07, 0xc7, 0x31, 0xb1, 0x12, 0x10, 0x59, 0x27, 0x80, 0xec, 0x5f,
     0x60, 0x51, 0x7f, 0xa9, 0x19, 0xb5, 0x4a, 0x0d, 0x2d, 0xe5, 0x7a, 0x9f, 0x93, 0xc9, 0x9c, 0xef,
     0xa0, 0xe0, 0x3b, 0x4d, 0xae, 0x2a, 0xf5, 0xb0, 0xc8, 0xeb, 0xbb, 0x3c, 0x83, 0x53, 0x99, 0x61,
     0x17, 0x2b, 0x04, 0x7e, 0xba, 0x77, 0xd6, 0x26, 0xe1, 0x69, 0x14, 0x63, 0x55, 0x21, 0x0c, 0x7d
    ]"

definition sbox :: "byte \<Rightarrow> byte" where
  "sbox b = sbox_table ! unat b"

definition inv_sbox :: "byte \<Rightarrow> byte" where
  "inv_sbox b = inv_sbox_table ! unat b"

definition xtime :: "byte \<Rightarrow> byte" where
  "xtime b = (if bit b 7 then push_bit 1 b XOR 0x1b else push_bit 1 b)"

definition mul3 :: "byte \<Rightarrow> byte" where
  "mul3 b = xtime b XOR b"

definition mul9 :: "byte \<Rightarrow> byte" where
  "mul9 b = xtime (xtime (xtime b)) XOR b"

definition mul11 :: "byte \<Rightarrow> byte" where
  "mul11 b = xtime (xtime (xtime b)) XOR xtime b XOR b"

definition mul13 :: "byte \<Rightarrow> byte" where
  "mul13 b = xtime (xtime (xtime b)) XOR xtime (xtime b) XOR b"

definition mul14 :: "byte \<Rightarrow> byte" where
  "mul14 b = xtime (xtime (xtime b)) XOR xtime (xtime b) XOR xtime b"

definition xor_bytes :: "byte list \<Rightarrow> byte list \<Rightarrow> byte list" where
  "xor_bytes xs ys = map2 (XOR) xs ys"

definition add_round_key :: "byte list \<Rightarrow> byte list \<Rightarrow> byte list" where
  "add_round_key k s = xor_bytes s k"

definition sub_bytes :: "byte list \<Rightarrow> byte list" where
  "sub_bytes s = map sbox s"

definition inv_sub_bytes :: "byte list \<Rightarrow> byte list" where
  "inv_sub_bytes s = map inv_sbox s"

definition shift_rows :: "byte list \<Rightarrow> byte list" where
  "shift_rows s = map (\<lambda>i. s ! i) [0, 5, 10, 15, 4, 9, 14, 3, 8, 13, 2, 7, 12, 1, 6, 11]"

definition inv_shift_rows :: "byte list \<Rightarrow> byte list" where
  "inv_shift_rows s = map (\<lambda>i. s ! i) [0, 13, 10, 7, 4, 1, 14, 11, 8, 5, 2, 15, 12, 9, 6, 3]"

fun mix_columns :: "byte list \<Rightarrow> byte list" where
  "mix_columns (a0 # a1 # a2 # a3 # rest) =
     [xtime a0 XOR mul3 a1 XOR a2 XOR a3,
      a0 XOR xtime a1 XOR mul3 a2 XOR a3,
      a0 XOR a1 XOR xtime a2 XOR mul3 a3,
      mul3 a0 XOR a1 XOR a2 XOR xtime a3] @ mix_columns rest"
| "mix_columns _ = []"

fun inv_mix_columns :: "byte list \<Rightarrow> byte list" where
  "inv_mix_columns (a0 # a1 # a2 # a3 # rest) =
     [mul14 a0 XOR mul11 a1 XOR mul13 a2 XOR mul9 a3,
      mul9 a0 XOR mul14 a1 XOR mul11 a2 XOR mul13 a3,
      mul13 a0 XOR mul9 a1 XOR mul14 a2 XOR mul11 a3,
      mul11 a0 XOR mul13 a1 XOR mul9 a2 XOR mul14 a3] @ inv_mix_columns rest"
| "inv_mix_columns _ = []"

text \<open>
  Key expansion for a 32-byte key: 60 words of four bytes; word \<open>i\<close> is word \<open>i - 8\<close>
  XOR a function of word \<open>i - 1\<close>.
\<close>

definition rcon :: "nat \<Rightarrow> byte" where
  "rcon j = [0x01, 0x02, 0x04, 0x08, 0x10, 0x20, 0x40] ! (j - 1)"

definition rot_word :: "byte list \<Rightarrow> byte list" where
  "rot_word w = drop 1 w @ take 1 w"

definition sub_word :: "byte list \<Rightarrow> byte list" where
  "sub_word w = map sbox w"

definition next_word :: "nat \<Rightarrow> byte list list \<Rightarrow> byte list" where
  "next_word i w =
     (let temp = w ! (i - 1);
          temp' = (if i mod 8 = 0 then xor_bytes (sub_word (rot_word temp)) [rcon (i div 8), 0, 0, 0]
                   else if i mod 8 = 4 then sub_word temp
                   else temp)
      in xor_bytes (w ! (i - 8)) temp')"

fun expand_from :: "nat \<Rightarrow> nat \<Rightarrow> byte list list \<Rightarrow> byte list list" where
  "expand_from 0 i w = w"
| "expand_from (Suc n) i w = expand_from n (Suc i) (w @ [next_word i w])"

definition key_words :: "byte list \<Rightarrow> byte list list" where
  "key_words key = map (\<lambda>j. take 4 (drop (4 * j) key)) [0..<8]"

definition key_expansion :: "byte list \<Rightarrow> byte list list" where
  "key_expansion key = expand_from 52 8 (key_words key)"

definition round_keys :: "byte list \<Rightarrow> byte list list" where
  "round_keys key =
     (let w = key_expansion key in map (\<lambda>r. concat (take 4 (drop (4 * r) w))) [0..<15])"

text \<open>
  The rounds, over the round keys that follow the first: every round but the last mixes
  the columns.  The inverse cipher undoes them from the last round key back.
\<close>

fun rounds :: "byte list list \<Rightarrow> byte list \<Rightarrow> byte list" where
  "rounds [] s = s"
| "rounds [k] s = add_round_key k (shift_rows (sub_bytes s))"
| "rounds (k # ks) s = rounds ks (add_round_key k (mix_columns (shift_rows (sub_bytes s))))"

fun inv_rounds :: "byte list list \<Rightarrow> byte list \<Rightarrow> byte list" where
  "inv_rounds [] s = s"
| "inv_rounds [k] s = inv_sub_bytes (inv_shift_rows (add_round_key k s))"
| "inv_rounds (k # ks) s =
     inv_sub_bytes (inv_shift_rows (inv_mix_columns (add_round_key k (inv_rounds ks s))))"

definition cipher :: "byte list list \<Rightarrow> byte list \<Rightarrow> byte list" where
  "cipher rks b = (case rks of [] \<Rightarrow> b | k0 # ks \<Rightarrow> rounds ks (add_round_key k0 b))"

definition inv_cipher :: "byte list list \<Rightarrow> byte list \<Rightarrow> byte list" where
  "inv_cipher rks b = (case rks of [] \<Rightarrow> b | k0 # ks \<Rightarrow> add_round_key k0 (inv_rounds ks b))"

subsection \<open>CBC mode and PKCS#7 padding\<close>

function blocks16 :: "byte list \<Rightarrow> byte list list" where
  "blocks16 bs = (if bs = [] then [] else take 16 bs # blocks16 (drop 16 bs))"
  by pat_completeness auto
termination
  by (relation "measure length") auto

declare blocks16.simps [simp del]

fun cbc_encrypt :: "byte list list \<Rightarrow> byte list \<Rightarrow> byte list list \<Rightarrow> byte list list" where
  "cbc_encrypt rks prev [] = []"
| "cbc_encrypt rks prev (p # ps) =
     (let c = cipher rks (xor_bytes p prev) in c # cbc_encrypt rks c ps)"

fun cbc_decrypt :: "byte list list \<Rightarrow> byte list \<Rightarrow> byte list list \<Rightarrow> byte list list" where
  "cbc_decrypt rks prev [] = []"
| "cbc_decrypt rks prev (c # cs) = xor_bytes (inv_cipher rks c) prev # cbc_decrypt rks c cs"

definition pkcs7_pad :: "byte list \<Rightarrow> byte list" where
  "pkcs7_pad bs = (let n = 16 - length bs mod 16 in bs @ replicate n (of_nat n))"

definition pkcs7_unpad :: "byte list \<Rightarrow> error + byte list" where
  "pkcs7_unpad bs =
     (if bs = [] then Inl WrongFinalBlockLength
      else let n = unat (last bs) in
        if n = 0 \<or> 16 < n then Inl BadDecrypt
        else if drop (length bs - n) bs \<noteq> replicate n (last bs) then Inl BadDecrypt
        else Inr (take (length bs - n) bs))"

text \<open>
  \<^verbatim>\<open>createCipheriv\<close> and \<^verbatim>\<open>createDecipheriv\<close> throw on an initialization vector that is not 16 bytes
  or a key that is not 32 bytes; \<^verbatim>\<open>decipher.final\<close> throws when the
  data is empty or not a whole number of blocks, and when the padding is wrong.
\<close>

definition aes256_cbc_encrypt :: "byte list \<Rightarrow> byte list \<Rightarrow> byte list \<Rightarrow> error + byte list" where
  "aes256_cbc_encrypt key iv plain =
     (if length iv \<noteq> 16 then Inl InvalidIV
      else if length key \<noteq> 32 then Inl InvalidKeyLength
      else Inr (concat (cbc_encrypt (round_keys key) iv (blocks16 (pkcs7_pad plain)))))"

definition aes256_cbc_decrypt :: "byte list \<Rightarrow> byte list \<Rightarrow> byte list \<Rightarrow> error + byte list" where
  "aes256_cbc_decrypt key iv enc =
     (if length iv \<noteq> 16 then Inl InvalidIV
      else if length key \<noteq> 32 then Inl InvalidKeyLength
      else if enc = [] \<or> length enc mod 16 \<noteq> 0 then Inl WrongFinalBlockLength
      else pkcs7_unpad (concat (cbc_decrypt (round_keys key) iv (blocks16 enc))))"

section \<open>The token of the code verifier: \<^verbatim>\<open>encrypt\<close> and \<^verbatim>\<open>decrypt\<close>\<close>

text \<open>
  A JavaScript value as far as the plugin inspects it: \<open>JOther\<close> is any value that is
  neither undefined, null, a boolean nor a string (a number, an array, an object, a
  function), given by its truthiness and by the string it converts to.
\<close>

datatype jsval =
    JUndefined
  | JNull
  | JBool bool
  | JStr jsstring
  | JOther bool jsstring

fun truthy :: "jsval \<Rightarrow> bool" where
  "truthy JUndefined = False"
| "truthy JNull = False"
| "truthy (JBool b) = b"
| "truthy (JStr s) = (s \<noteq> [])"
| "truthy (JOther t s) = t"

text \<open>String conversion, as in \<^verbatim>\<open>'' + v\<close> and in a property key.\<close>

fun to_string :: "jsval \<Rightarrow> jsstring" where
  "to_string JUndefined = js ''undefined''"
| "to_string JNull = js ''null''"
| "to_string (JBool b) = (if b then js ''true'' else js ''false'')"
| "to_string (JStr s) = s"
| "to_string (JOther t s) = s"

text \<open>\<^verbatim>\<open>s.split(sep)\<close> for a separator of one code unit.\<close>

fun split :: "16 word \<Rightarrow> jsstring \<Rightarrow> jsstring list" where
  "split sep [] = [[]]"
| "split sep (c # cs) =
     (if c = sep then [] # split sep cs
      else (case split sep cs of
              [] \<Rightarrow> [[c]]
            | x # xs \<Rightarrow> (c # x) # xs))"

text \<open>
  The OpenID client of the library \<^verbatim>\<open>openid-client\<close>: the discovered issuer and the
  metadata the plugin passes to \<^verbatim>\<open>new issuer.Client\<close> (source lines 138-150).  An
  absent property is \<open>None\<close>.  The authorization endpoint of the issuer is given as
  \<^verbatim>\<open>url.parse(endpoint, true)\<close> reads it: what \<^verbatim>\<open>url.format\<close> writes before the
  query (the protocol, the host in lower case, the path), the endpoint's own query
  parameters in their order, each with its values, and the fragment with its
  \<^verbatim>\<open>#\<close>, or empty.
\<close>

record parsed_url =
  before_query :: jsstring
  own_query :: "(jsstring \<times> jsstring list) list"
  fragment :: jsstring

record issuer =
  authorization_endpoint :: "parsed_url option"

record clientOptions =
  client_id :: jsval
  redirect_uris :: "jsval list"
  response_types :: "jsstring list"
  client_secret :: "jsval option"
  token_endpoint_auth_method :: "jsstring option"

record oidc_client =
  client_issuer :: issuer
  metadata :: clientOptions

text \<open>
  \<^verbatim>\<open>new issuer.Client(metadata)\<close>: the constructor throws a type error
  (\<^verbatim>\<open>client_id is required\<close>) unless \<^verbatim>\<open>client_id\<close> is a string that is not empty.
\<close>

definition newClient :: "issuer \<Rightarrow> clientOptions \<Rightarrow> error + oidc_client" where
  "newClient iss options =
     (case client_id options of
        JStr s \<Rightarrow>
          if s = [] then Inl TypeError else Inr \<lparr>client_issuer = iss, metadata = options\<rparr>
      | _ \<Rightarrow> Inl TypeError)"

text \<open>
  The module-level \<^verbatim>\<open>store\<close> (source lines 4-9); \<open>None\<close> is \<^verbatim>\<open>null\<close>.  The
  function \<^verbatim>\<open>userAuthenticated\<close> that the host hands out at a registration is
  identified by the number of that registration.
\<close>

record store =
  client :: "oidc_client option"
  userAuthenticated :: "nat option"
  secretKey :: "jsstring option"
  redirectUrl :: "jsstring option"

definition cookieName :: jsstring where
  "cookieName = js ''plugin-auth-openid-code-verifier''"

text \<open>
  \<^verbatim>\<open>encrypt\<close> (source lines 253-263).  \<open>rnd\<close> is the outcome of
  \<^verbatim>\<open>getRandomBytes(16)\<close>: the bytes, or the rejection of the random source.  The key is
  the string \<^verbatim>\<open>store.secretKey\<close>, which \<^verbatim>\<open>createCipheriv\<close> reads as UTF-8; a key that
  is \<^verbatim>\<open>null\<close> is a type error.
\<close>

definition encrypt :: "(error + byte list) \<Rightarrow> store \<Rightarrow> jsstring \<Rightarrow> error + jsstring" where
  "encrypt rnd st data =
     (case rnd of
        Inl e \<Rightarrow> Inl e
      | Inr iv \<Rightarrow>
          (case secretKey st of
             None \<Rightarrow> Inl TypeError
           | Some key \<Rightarrow>
               (case aes256_cbc_encrypt (utf8_encode key) iv (utf8_encode data) of
                  Inl e \<Rightarrow> Inl e
                | Inr encrypted \<Rightarrow> Inr (to_hex iv @ js '':'' @ to_hex encrypted))))"

text \<open>
  \<^verbatim>\<open>decrypt\<close> (source lines 265-274).  The argument is the cookie's value: only a
  string has a method \<^verbatim>\<open>split\<close>.  Of the pieces between colons the first two are read;
  a missing second piece is \<^verbatim>\<open>undefined\<close>, which \<^verbatim>\<open>Buffer.from\<close> rejects.
\<close>

definition decrypt :: "store \<Rightarrow> jsval \<Rightarrow> error + jsstring" where
  "decrypt st data =
     (case data of
        JStr s \<Rightarrow>
          (case split 0x3A s of
             iv_hex # enc_hex # _ \<Rightarrow>
               (case secretKey st of
                  None \<Rightarrow> Inl TypeError
                | Some key \<Rightarrow>
                    (case aes256_cbc_decrypt (utf8_encode key) (from_hex iv_hex) (from_hex enc_hex) of
                       Inl e \<Rightarrow> Inl e
                     | Inr plain \<Rightarrow> Inr (utf8_decode plain)))
           | _ \<Rightarrow> Inl TypeError)
      | _ \<Rightarrow> Inl TypeError)"

section \<open>Registration with the host: \<^verbatim>\<open>loadSettingsAndCreateClient\<close>\<close>

text \<open>
  What the plugin writes to the outside: log entries (with the error object, if one is
  passed), the cookie and the redirect written to the response, and the call of the
  host's \<^verbatim>\<open>userAuthenticated\<close>.
\<close>

datatype level = LInfo | LDebug | LError

datatype jsnumber = NaN | Num int | NegZero | Approx int

record cookie_options =
  secure :: bool
  httpOnly :: bool
  sameSite :: jsstring
  maxAge :: nat

record identity =
  username :: jsstring
  email :: jsval
  displayName :: jsval
  role :: "jsnumber option"

datatype action =
    Log level string "error option"
  | SetCookie jsstring jsstring cookie_options
  | Redirect jsstring
  | UserAuthenticated nat identity

record request =
  cookies :: "jsstring \<Rightarrow> jsval"
  body :: "(jsstring \<times> jsstring) list"

text \<open>
  The outcome of every call that leaves the plugin during one invocation: the settings
  store, issuer discovery, the host's configuration, the generators of the library, the
  random source, the response object, the token and userinfo endpoints behind
  \<^verbatim>\<open>client.callback\<close> and \<^verbatim>\<open>client.userinfo\<close>, and the host's
  \<^verbatim>\<open>userAuthenticated\<close>.  A settings object maps a setting's name to its value; the
  userinfo object is given by its property lookup.  For the response object and the
  host's function, \<open>Some e\<close> is a call that throws \<open>e\<close>.
\<close>

record env =
  getSettings :: "error + (string \<Rightarrow> jsval)"
  discover :: "jsval \<Rightarrow> error + issuer"
  getWebserverUrl :: jsstring
  codeVerifier :: "error + jsstring"
  codeChallenge :: "jsstring \<Rightarrow> error + jsstring"
  randomBytes :: "error + byte list"
  res_cookie :: "error option"
  res_redirect :: "error option"
  callback :: "oidc_client \<Rightarrow> request \<Rightarrow> jsval \<Rightarrow> jsstring \<Rightarrow> error + jsval"
  userinfo :: "oidc_client \<Rightarrow> jsval \<Rightarrow> error + (jsstring \<Rightarrow> jsval)"
  accept :: "nat \<Rightarrow> identity \<Rightarrow> error option"

text \<open>
  Modelled from the spec: the host's registry of external authentication methods
  (section 6, host-facing capability contract).  Registering a method adds it under its
  name and hands back the identity-acceptance function; a previously registered method
  is unregistered by name.
\<close>

record host =
  externalAuths :: "jsstring list"
  registrations :: nat

definition registerExternalAuth :: "host \<Rightarrow> jsstring \<Rightarrow> host \<times> nat" where
  "registerExternalAuth h authName =
     (h\<lparr>externalAuths := externalAuths h @ [authName], registrations := Suc (registrations h)\<rparr>,
      registrations h)"

definition unregisterExternalAuth :: "host \<Rightarrow> jsstring \<Rightarrow> host" where
  "unregisterExternalAuth h authName =
     h\<lparr>externalAuths := filter (\<lambda>n. n \<noteq> authName) (externalAuths h)\<rparr>"

text \<open>
  Source lines 110-115, which run before the function first waits: the call of
  \<^verbatim>\<open>unregisterExternalAuth('openid')\<close> if a client is present, and the reset of the
  client and of the acceptance function.
\<close>

definition loadSettingsAndCreateClient_begin :: "store \<times> host \<Rightarrow> store \<times> host" where
  "loadSettingsAndCreateClient_begin sh =
     (let st = fst sh;
          h = (if client st \<noteq> None then unregisterExternalAuth (snd sh) (js ''openid'') else snd sh)
      in (st\<lparr>client := None, userAuthenticated := None\<rparr>, h))"

text \<open>
  Source lines 117-187, from the settings' arrival on.  The result is the rejection of
  the promise if any, the store, the host and the log.  The function reads and writes the
  store only after the discovery (from source line 140 on): the store given here is the
  store as it is when the function resumes with the issuer, which another invocation may
  have changed since lines 110-115 ran.
\<close>

definition loadSettingsAndCreateClient_resume ::
    "env \<Rightarrow> store \<times> host \<Rightarrow> error option \<times> store \<times> host \<times> action list" where
  "loadSettingsAndCreateClient_resume e sh =
     (let st = fst sh; h = snd sh in
      case getSettings e of
        Inl err \<Rightarrow> (Some err, st, h, [])
      | Inr settings \<Rightarrow>
          if \<not> truthy (settings ''discover-url'') then
            (None, st, h,
             [Log LInfo ''Do not register external openid auth because discover URL is not set.'' None])
          else if \<not> truthy (settings ''client-id'') then
            (None, st, h,
             [Log LInfo ''Do not register external openid auth because client ID is not set.'' None])
          else
            (case discover e (settings ''discover-url'') of
               Inl err \<Rightarrow> (Some err, st, h, [])
             | Inr iss \<Rightarrow>
                 (let dbg = [Log LDebug ''Discovered issuer %s.'' None];
                      secret = settings ''client-secret'';
                      clientOptions = \<lparr>
                        client_id = settings ''client-id'',
                        redirect_uris = [case redirectUrl st of None \<Rightarrow> JNull | Some u \<Rightarrow> JStr u],
                        response_types = [js ''code''],
                        client_secret = (if truthy secret then Some secret else None),
                        token_endpoint_auth_method = (if truthy secret then None else Some (js ''none''))\<rparr>
                  in case newClient iss clientOptions of
                       Inl err \<Rightarrow> (Some err, st, h, dbg)
                     | Inr c \<Rightarrow>
                         (let st' = st\<lparr>client := Some c\<rparr>
                          in if userAuthenticated st' \<noteq> None then (None, st', h, dbg)
                             else
                               (let r = registerExternalAuth h (js ''openid-connect'')
                                in (None, st'\<lparr>userAuthenticated := Some (snd r)\<rparr>, fst r, dbg))))))"

definition loadSettingsAndCreateClient ::
    "env \<Rightarrow> store \<times> host \<Rightarrow> error option \<times> store \<times> host \<times> action list" where
  "loadSettingsAndCreateClient e sh =
     loadSettingsAndCreateClient_resume e (loadSettingsAndCreateClient_begin sh)"

text \<open>
  \<^verbatim>\<open>register\<close> (source lines 83-88): the redirect URL, the secret key as the
  hexadecimal text of 16 random bytes, then the first configuration.
\<close>

definition register :: "env \<Rightarrow> store \<times> host \<Rightarrow> error option \<times> store \<times> host \<times> action list" where
  "register e sh =
     (let st = (fst sh)\<lparr>redirectUrl :=
                 Some (getWebserverUrl e @ js ''/plugins/auth-openid-connect/router/id-token-cb'')\<rparr>
      in case randomBytes e of
           Inl err \<Rightarrow> (Some err, st, snd sh, [])
         | Inr secretKeyBuf \<Rightarrow>
             loadSettingsAndCreateClient e (st\<lparr>secretKey := Some (to_hex secretKeyBuf)\<rparr>, snd sh))"

text \<open>The handler of \<^verbatim>\<open>onSettingsChange\<close> (source lines 90-93) logs a rejection.\<close>

definition onSettingsChange :: "env \<Rightarrow> store \<times> host \<Rightarrow> store \<times> host \<times> action list" where
  "onSettingsChange e sh =
     (case loadSettingsAndCreateClient e sh of
        (None, st, h, acts) \<Rightarrow> (st, h, acts)
      | (Some err, st, h, acts) \<Rightarrow>
          (st, h,
           acts @ [Log LError ''Cannot load settings and create client after settings changes.''
                     (Some err)]))"

section \<open>The authorization request: \<^verbatim>\<open>onAuthRequest\<close>\<close>

text \<open>
  \<^verbatim>\<open>client.authorizationUrl(params)\<close> of the library: the parameters
  \<^verbatim>\<open>client_id\<close>, \<^verbatim>\<open>scope\<close>, \<^verbatim>\<open>response_type\<close> and \<^verbatim>\<open>redirect_uri\<close> of the
  client, overridden and extended by \<open>params\<close> as an object spread does, without the
  undefined and null ones, the others converted to strings; these override and extend
  the endpoint's own query parameters in the same way.  The URL is what
  \<^verbatim>\<open>url.format\<close> writes: the part before the query, a question mark and the query
  string unless it is empty, and the fragment.  A query string writes every value of
  every key as \<^verbatim>\<open>key=value\<close>, joined by \<^verbatim>\<open>&\<close>, and escapes every code unit but
  letters, digits and \<^verbatim>\<open>-_.!~*'()\<close> as the percent-encoded bytes of its UTF-8 form; a
  surrogate at the end of a string is a URI error.
\<close>

fun assign :: "jsstring \<Rightarrow> 'v \<Rightarrow> (jsstring \<times> 'v) list \<Rightarrow> (jsstring \<times> 'v) list" where
  "assign k v [] = [(k, v)]"
| "assign k v (p # ps) = (if fst p = k then (k, v) # ps else p # assign k v ps)"

definition spread :: "(jsstring \<times> 'v) list \<Rightarrow> (jsstring \<times> 'v) list \<Rightarrow> (jsstring \<times> 'v) list" where
  "spread obj params = fold (\<lambda>p acc. assign (fst p) (snd p) acc) params obj"

definition only_one :: "jsval list \<Rightarrow> jsval" where
  "only_one xs = (case xs of [x] \<Rightarrow> x | _ \<Rightarrow> JUndefined)"

definition authorizationParams :: "oidc_client \<Rightarrow> (jsstring \<times> jsval) list \<Rightarrow> (jsstring \<times> jsstring) list" where
  "authorizationParams c params =
     map (\<lambda>p. (fst p, to_string (snd p)))
       (filter (\<lambda>p. snd p \<noteq> JUndefined \<and> snd p \<noteq> JNull)
          (spread
             [(js ''client_id'', client_id (metadata c)),
              (js ''scope'', JStr (js ''openid'')),
              (js ''response_type'', only_one (map JStr (response_types (metadata c)))),
              (js ''redirect_uri'', only_one (redirect_uris (metadata c)))]
             params))"

definition unreserved :: "16 word \<Rightarrow> bool" where
  "unreserved c \<longleftrightarrow>
     (65 \<le> c \<and> c \<le> 90) \<or> (97 \<le> c \<and> c \<le> 122) \<or> (48 \<le> c \<and> c \<le> 57) \<or>
     c \<in> set (js ''-_.!~*()'') \<or> c = 0x27"

definition upper_hex_digit :: "nat \<Rightarrow> 16 word" where
  "upper_hex_digit n = (if n < 10 then of_nat (48 + n) else of_nat (55 + n))"

definition percent :: "byte list \<Rightarrow> jsstring" where
  "percent bs =
     concat (map (\<lambda>b. [0x25, upper_hex_digit (unat b div 16), upper_hex_digit (unat b mod 16)]) bs)"

fun qs_escape :: "jsstring \<Rightarrow> error + jsstring" where
  "qs_escape [] = Inr []"
| "qs_escape (c # cs) =
     (if is_high_surrogate c \<or> is_low_surrogate c then
        (case cs of
           [] \<Rightarrow> Inl URIError
         | d # rest \<Rightarrow>
             (case qs_escape rest of
                Inl e \<Rightarrow> Inl e
              | Inr r \<Rightarrow>
                  Inr (percent (utf8_of_code_point
                         (0x10000 + (unat c mod 1024) * 1024 + unat d mod 1024)) @ r)))
      else
        (case qs_escape cs of
           Inl e \<Rightarrow> Inl e
         | Inr r \<Rightarrow>
             Inr ((if unreserved c then [c] else percent (utf8_of_code_point (unat c))) @ r)))"

fun qs_stringify :: "(jsstring \<times> jsstring) list \<Rightarrow> error + jsstring" where
  "qs_stringify [] = Inr []"
| "qs_stringify (p # ps) =
     (case qs_escape (fst p) of
        Inl e \<Rightarrow> Inl e
      | Inr k \<Rightarrow>
          (case qs_escape (snd p) of
             Inl e \<Rightarrow> Inl e
           | Inr v \<Rightarrow>
               (case qs_stringify ps of
                  Inl e \<Rightarrow> Inl e
                | Inr r \<Rightarrow> Inr (k @ js ''='' @ v @ (if ps = [] then [] else js ''&'' @ r)))))"

definition query_pairs :: "(jsstring \<times> jsstring list) list \<Rightarrow> (jsstring \<times> jsstring) list" where
  "query_pairs obj = concat (map (\<lambda>kv. map (\<lambda>v. (fst kv, v)) (snd kv)) obj)"

definition authorizationUrl :: "oidc_client \<Rightarrow> (jsstring \<times> jsval) list \<Rightarrow> error + jsstring" where
  "authorizationUrl c params =
     (case authorization_endpoint (client_issuer c) of
        None \<Rightarrow> Inl TypeError
      | Some target \<Rightarrow>
          (case qs_stringify
                  (query_pairs
                     (spread (own_query target)
                        (map (\<lambda>p. (fst p, [snd p])) (authorizationParams c params)))) of
             Inl e \<Rightarrow> Inl e
           | Inr query \<Rightarrow>
               Inr (before_query target @ (if query = [] then [] else js ''?'' @ query)
                      @ fragment target)))"

text \<open>
  The body of the \<^verbatim>\<open>try\<close> block of \<^verbatim>\<open>onAuthRequest\<close> (source lines 162-180): what
  has been written to the response, and the error thrown if a step throws.  A call on
  the response that throws writes nothing.  \<open>webserverUrl\<close> is the value the closure
  captured at registration (source line 155); \<open>requestParams\<close> is the object passed to
  \<^verbatim>\<open>authorizationUrl\<close> (source lines 165-170).
\<close>

definition requestParams :: "jsstring \<Rightarrow> (jsstring \<times> jsval) list" where
  "requestParams challenge =
     [(js ''scope'', JStr (js ''openid email profile'')),
      (js ''response_mode'', JStr (js ''form_post'')),
      (js ''code_challenge'', JStr challenge),
      (js ''code_challenge_method'', JStr (js ''S256''))]"

definition authRequestSteps :: "env \<Rightarrow> jsstring \<Rightarrow> store \<Rightarrow> action list \<times> error option" where
  "authRequestSteps e webserverUrl st =
     (case codeVerifier e of
        Inl err \<Rightarrow> ([], Some err)
      | Inr cv \<Rightarrow>
     (case codeChallenge e cv of
        Inl err \<Rightarrow> ([], Some err)
      | Inr cc \<Rightarrow>
     (case client st of
        None \<Rightarrow> ([], Some TypeError)
      | Some c \<Rightarrow>
     (case authorizationUrl c (requestParams cc) of
        Inl err \<Rightarrow> ([], Some err)
      | Inr url \<Rightarrow>
     (case encrypt (randomBytes e) st cv of
        Inl err \<Rightarrow> ([], Some err)
      | Inr encryptedCodeVerifier \<Rightarrow>
     (case res_cookie e of
        Some err \<Rightarrow> ([], Some err)
      | None \<Rightarrow>
          (let cookie = SetCookie cookieName encryptedCodeVerifier
                 \<lparr>secure = prefix (js ''https://'') webserverUrl, httpOnly = True,
                  sameSite = js ''none'', maxAge = 1000 * 60 * 10\<rparr>
           in case res_redirect e of
                Some err \<Rightarrow> ([cookie], Some err)
              | None \<Rightarrow> ([cookie, Redirect url], None))))))))"

definition onAuthRequest :: "env \<Rightarrow> jsstring \<Rightarrow> store \<Rightarrow> action list" where
  "onAuthRequest e webserverUrl st =
     (case authRequestSteps e webserverUrl st of
        (acts, None) \<Rightarrow> acts
      | (acts, Some err) \<Rightarrow> acts @ [Log LError ''Cannot handle auth request.'' (Some err)])"

section \<open>The callback: \<^verbatim>\<open>handleCb\<close>\<close>

text \<open>
  \<^verbatim>\<open>parseInt(s, 10)\<close>: leading white space is skipped, then an optional sign, then
  the longest run of decimal digits is read; no digit gives \<^verbatim>\<open>NaN\<close>.  The result is a
  double: a value up to \<open>2 ^ 53\<close> is exact (\<open>Num\<close>), a larger one is the double nearest
  to it (\<open>Approx\<close>), and \<^verbatim>\<open>-0\<close> is \<open>NegZero\<close>.
\<close>

definition is_white_space :: "16 word \<Rightarrow> bool" where
  "is_white_space c \<longleftrightarrow>
     c \<in> set [0x09, 0x0A, 0x0B, 0x0C, 0x0D, 0x20, 0xA0, 0x1680, 0x2028, 0x2029, 0x202F,
               0x205F, 0x3000, 0xFEFF]
     \<or> (0x2000 \<le> c \<and> c \<le> 0x200A)"

definition is_digit :: "16 word \<Rightarrow> bool" where
  "is_digit c \<longleftrightarrow> 48 \<le> c \<and> c \<le> 57"

definition digits_value :: "jsstring \<Rightarrow> nat" where
  "digits_value ds = foldl (\<lambda>a c. 10 * a + (unat c - 48)) 0 ds"

definition parseInt10 :: "jsstring \<Rightarrow> jsnumber" where
  "parseInt10 s =
     (let s1 = dropWhile is_white_space s;
          neg = (s1 \<noteq> [] \<and> hd s1 = 0x2D);
          s2 = (if s1 \<noteq> [] \<and> (hd s1 = 0x2D \<or> hd s1 = 0x2B) then tl s1 else s1);
          ds = takeWhile is_digit s2
      in if ds = [] then NaN
         else let v = digits_value ds in
           if v = 0 \<and> neg then NegZero
           else if v \<le> 2 ^ 53 then Num (if neg then - int v else int v)
           else Approx (if neg then - int v else int v))"

text \<open>\<^verbatim>\<open>username.replace(/[^a-z0-9._]/g, '_')\<close>, code unit by code unit.\<close>

definition allowed :: "16 word \<Rightarrow> bool" where
  "allowed c \<longleftrightarrow> (97 \<le> c \<and> c \<le> 122) \<or> (48 \<le> c \<and> c \<le> 57) \<or> c = 0x2E \<or> c = 0x5F"

definition replace_disallowed :: "jsstring \<Rightarrow> jsstring" where
  "replace_disallowed s = map (\<lambda>c. if allowed c then c else 0x5F) s"

definition errorUrl :: jsstring where
  "errorUrl = js ''/login?externalAuthError=true''"

text \<open>
  \<^verbatim>\<open>onCBError\<close> (source lines 249-251): the redirect written to the response, or the
  error that \<^verbatim>\<open>res.redirect\<close> throws.
\<close>

definition onCBError :: "env \<Rightarrow> action list \<times> error option" where
  "onCBError e =
     (case res_redirect e of
        None \<Rightarrow> ([Redirect errorUrl], None)
      | Some err \<Rightarrow> ([], Some err))"

text \<open>
  The mapping of the userinfo to the identity (source lines 222-242).  Only a string has
  a method \<^verbatim>\<open>replace\<close>: a truthy value of the username property that is not a string
  is a type error.
\<close>

definition mapRole :: "(string \<Rightarrow> jsval) \<Rightarrow> (jsstring \<Rightarrow> jsval) \<Rightarrow> jsnumber option" where
  "mapRole settings userInfo =
     (if truthy (settings ''role-property'')
      then Some (parseInt10 (to_string (userInfo (to_string (settings ''role-property'')))))
      else None)"

definition mapDisplayName :: "(string \<Rightarrow> jsval) \<Rightarrow> (jsstring \<Rightarrow> jsval) \<Rightarrow> jsval" where
  "mapDisplayName settings userInfo =
     (if truthy (settings ''display-name-property'')
      then userInfo (to_string (settings ''display-name-property''))
      else JUndefined)"

definition mapUsername :: "(string \<Rightarrow> jsval) \<Rightarrow> (jsstring \<Rightarrow> jsval) \<Rightarrow> error + jsstring" where
  "mapUsername settings userInfo =
     (let v = userInfo (to_string (settings ''username-property''));
          u = (if truthy v then v else JStr [])
      in case u of
           JStr s \<Rightarrow> Inr (replace_disallowed s)
         | _ \<Rightarrow> Inl TypeError)"

definition mapIdentity :: "(string \<Rightarrow> jsval) \<Rightarrow> (jsstring \<Rightarrow> jsval) \<Rightarrow> error + identity" where
  "mapIdentity settings userInfo =
     (case mapUsername settings userInfo of
        Inl err \<Rightarrow> Inl err
      | Inr name \<Rightarrow>
          Inr \<lparr>username = name,
               email = userInfo (to_string (settings ''mail-property'')),
               displayName = mapDisplayName settings userInfo,
               role = mapRole settings userInfo\<rparr>)"

text \<open>
  The body of the \<^verbatim>\<open>try\<close> block of \<^verbatim>\<open>handleCb\<close> (source lines 205-242): what has
  been logged and called, and the error thrown if a step throws.
\<close>

definition callbackSteps :: "env \<Rightarrow> store \<Rightarrow> request \<Rightarrow> jsval \<Rightarrow> action list \<times> error option" where
  "callbackSteps e st req encryptedCodeVerifier =
     (case decrypt st encryptedCodeVerifier of
        Inl err \<Rightarrow> ([], Some err)
      | Inr cv \<Rightarrow>
     (case client st of
        None \<Rightarrow> ([], Some TypeError)
      | Some c \<Rightarrow>
     (case callback e c req (case redirectUrl st of None \<Rightarrow> JNull | Some u \<Rightarrow> JStr u) cv of
        Inl err \<Rightarrow> ([], Some err)
      | Inr accessToken \<Rightarrow>
     (case userinfo e c accessToken of
        Inl err \<Rightarrow> ([], Some err)
      | Inr userInfo \<Rightarrow>
     (case getSettings e of
        Inl err \<Rightarrow> ([], Some err)
      | Inr settings \<Rightarrow>
          (let dbg = Log LDebug ''Got userinfo from openid auth.'' None in
           case mapIdentity settings userInfo of
             Inl err \<Rightarrow> ([dbg], Some err)
           | Inr ident \<Rightarrow>
               (case userAuthenticated st of
                  None \<Rightarrow> ([dbg], Some TypeError)
                | Some h \<Rightarrow> ([dbg, UserAuthenticated h ident], accept e h ident))))))))"

text \<open>
  \<^verbatim>\<open>handleCb\<close> (source lines 190-247): what has been logged, called and written to
  the response, and the error with which the promise is rejected if \<^verbatim>\<open>onCBError\<close>
  throws.
\<close>

definition handleCb :: "env \<Rightarrow> store \<Rightarrow> request \<Rightarrow> action list \<times> error option" where
  "handleCb e st req =
     (if userAuthenticated st = None then
        (Log LInfo ''Received callback but cannot userAuthenticated function does not exist.'' None
           # fst (onCBError e),
         snd (onCBError e))
      else
        (let encryptedCodeVerifier = cookies req cookieName in
         if \<not> truthy encryptedCodeVerifier then
           (Log LError ''Received callback but code verifier not found in request cookie.'' None
              # fst (onCBError e),
            snd (onCBError e))
         else
           (case callbackSteps e st req encryptedCodeVerifier of
              (acts, None) \<Rightarrow> (acts, None)
            | (acts, Some err) \<Rightarrow>
                (acts @ Log LError ''Error in handle callback.'' (Some err) # fst (onCBError e),
                 snd (onCBError e)))))"

section \<open>A concrete installation\<close>

text \<open>
  An instance at \<^verbatim>\<open>https://peertube.example\<close> whose secret key is the hexadecimal text
  of the bytes 0 to 15, after a first registration with a public client, and the PKCE
  verifier of RFC 7636, appendix B.
\<close>

definition example_issuer :: issuer where
  "example_issuer =
     \<lparr>authorization_endpoint =
        Some \<lparr>before_query = js ''https://idp.example/authorize'', own_query = [], fragment = []\<rparr>\<rparr>"

definition example_redirectUrl :: jsstring where
  "example_redirectUrl = js ''https://peertube.example/plugins/auth-openid-connect/router/id-token-cb''"

definition example_client :: oidc_client where
  "example_client =
     \<lparr>client_issuer = example_issuer,
      metadata = \<lparr>client_id = JStr (js ''abc''),
                  redirect_uris = [JStr example_redirectUrl],
                  response_types = [js ''code''],
                  client_secret = None,
                  token_endpoint_auth_method = Some (js ''none'')\<rparr>\<rparr>"

definition example_store :: store where
  "example_store =
     \<lparr>client = Some example_client,
      userAuthenticated = Some 0,
      secretKey = Some (to_hex [0, 1, 2, 3, 4, 5, 6, 7, 8, 9, 10, 11, 12, 13, 14, 15]),
      redirectUrl = Some example_redirectUrl\<rparr>"

definition example_iv :: "byte list" where
  "example_iv = replicate 16 0"

definition example_verifier :: jsstring where
  "example_verifier = js ''dBjftJeZ4CVP-mB92K27uhbUJU1p1r_wW1gFWFOEjXk''"

definition example_token :: jsstring where
  "example_token =
     (case encrypt (Inr example_iv) example_store example_verifier of
        Inr token \<Rightarrow> token
      | Inl err \<Rightarrow> [])"

definition example_request :: request where
  "example_request =
     \<lparr>cookies = (\<lambda>name. if name = cookieName then JStr example_token else JUndefined),
      body = [(js ''code'', js ''SplxlOBeZQQYbYS6WxSbIA'')]\<rparr>"

definition example_settings :: "string \<Rightarrow> jsval" where
  "example_settings name =
     (if name = ''discover-url'' then JStr (js ''https://idp.example/.well-known'')
      else if name = ''client-id'' then JStr (js ''abc'')
      else if name = ''username-property'' then JStr (js ''preferred_username'')
      else if name = ''mail-property'' then JStr (js ''email'')
      else if name = ''role-property'' then JStr (js ''role'')
      else JUndefined)"

definition example_userinfo :: "jsstring \<Rightarrow> jsval" where
  "example_userinfo key =
     (if key = js ''preferred_username'' then JStr (js ''John.Doe'')
      else if key = js ''email'' then JStr (js ''john@idp.example'')
      else if key = js ''role'' then JStr (js ''2abc'')
      else JUndefined)"

definition example_env :: env where
  "example_env =
     \<lparr>getSettings = Inr example_settings,
      discover = (\<lambda>url. Inr example_issuer),
      getWebserverUrl = js ''https://peertube.example'',
      codeVerifier = Inr example_verifier,
      codeChallenge = (\<lambda>v. Inr (js ''E9Melhoa2OwvFrEMTJguCHaoeK1t8URWbuGJSstw-cM'')),
      randomBytes = Inr example_iv,
      res_cookie = None,
      res_redirect = None,
      callback = (\<lambda>c req url v.
        if v = example_verifier then Inr (JStr (js ''SlAV32hkKG''))
        else Inl (LibraryError ''invalid_grant'')),
      userinfo = (\<lambda>c token. Inr example_userinfo),
      accept = (\<lambda>h ident. None)\<rparr>"

definition example_host :: host where
  "example_host = \<lparr>externalAuths = [js ''openid-connect''], registrations = 1\<rparr>"

text \<open>The example with other settings and another userinfo object.\<close>

definition env_with :: "(string \<Rightarrow> jsval) \<Rightarrow> (jsstring \<Rightarrow> jsval) \<Rightarrow> env" where
  "env_with settings userInfo =
     example_env\<lparr>getSettings := Inr settings, userinfo := (\<lambda>c token. Inr userInfo)\<rparr>"

text \<open>The store and the host before \<^verbatim>\<open>register\<close> runs.\<close>

definition initial_store :: store where
  "initial_store = \<lparr>client = None, userAuthenticated = None, secretKey = None, redirectUrl = None\<rparr>"

definition initial_host :: host where
  "initial_host = \<lparr>externalAuths = [], registrations = 0\<rparr>"

section \<open>Properties of the cipher\<close>

lemma sbox_table_check:
  "list_all (\<lambda>n. inv_sbox_table ! unat (sbox_table ! n) = (of_nat n :: byte)) [0..<256]"
  by code_simp

lemma inv_sbox_sbox: "inv_sbox (sbox b) = b"
proof -
  have "unat b < 256" using unsigned_less[of b] by simp
  then have "unat b \<in> set [0..<256]" by simp
  with sbox_table_check
  have "inv_sbox_table ! unat (sbox_table ! unat b) = (of_nat (unat b) :: byte)"
    unfolding list_all_iff by blast
  then show ?thesis by (simp add: sbox_def inv_sbox_def)
qed

lemma inv_sub_bytes_sub_bytes: "inv_sub_bytes (sub_bytes s) = s"
  by (simp add: inv_sub_bytes_def sub_bytes_def inv_sbox_sbox comp_def)

lemma length_sub_bytes: "length (sub_bytes s) = length s"
  by (simp add: sub_bytes_def)

lemma xtime_xor: "xtime (a XOR b) = xtime a XOR xtime b"
  by (simp add: xtime_def bit_xor_iff ac_simps)

lemma length16_cases:
  assumes "length (s :: 'a list) = 16"
  obtains a0 a1 a2 a3 a4 a5 a6 a7 a8 a9 a10 a11 a12 a13 a14 a15
  where "s = [a0, a1, a2, a3, a4, a5, a6, a7, a8, a9, a10, a11, a12, a13, a14, a15]"
  using assms by (auto simp: numeral_eq_Suc length_Suc_conv)

lemma inv_shift_rows_shift_rows: "length s = 16 \<Longrightarrow> inv_shift_rows (shift_rows s) = s"
  by (erule length16_cases) (simp add: shift_rows_def inv_shift_rows_def)

lemma length_shift_rows: "length (shift_rows s) = 16"
  by (simp add: shift_rows_def)

lemma xor_cancel3: "(a :: byte) XOR (a XOR b) = b"
  by (simp add: xor.assoc[symmetric])

lemma inv_mix_column:
  "inv_mix_columns (mix_columns (a0 # a1 # a2 # a3 # rest)) =
     a0 # a1 # a2 # a3 # inv_mix_columns (mix_columns rest)"
  by (simp add: mul3_def mul9_def mul11_def mul13_def mul14_def xtime_xor
      xor.assoc xor.left_commute xor.commute xor_cancel3)

lemma inv_mix_columns_mix_columns: "length s = 16 \<Longrightarrow> inv_mix_columns (mix_columns s) = s"
  by (erule length16_cases)
    (simp add: inv_mix_column del: mix_columns.simps inv_mix_columns.simps, simp)

lemma length_mix_columns: "length s = 16 \<Longrightarrow> length (mix_columns s) = 16"
  by (erule length16_cases) simp

lemma length_xor_bytes: "length (xor_bytes xs ys) = min (length xs) (length ys)"
  by (simp add: xor_bytes_def)

lemma xor_bytes_cancel: "length xs = length ys \<Longrightarrow> xor_bytes (xor_bytes xs ys) ys = xs"
  unfolding xor_bytes_def
  by (induction xs ys rule: list_induct2) (simp_all add: xor.assoc)

lemma add_round_key_cancel: "length s = length k \<Longrightarrow> add_round_key k (add_round_key k s) = s"
  by (simp add: add_round_key_def xor_bytes_cancel)

lemma length_add_round_key:
  "length s = 16 \<Longrightarrow> length k = 16 \<Longrightarrow> length (add_round_key k s) = 16"
  by (simp add: add_round_key_def length_xor_bytes)

lemma rounds_inverse:
  "\<forall>k \<in> set ks. length k = 16 \<Longrightarrow> length s = 16 \<Longrightarrow>
     inv_rounds ks (rounds ks s) = s \<and> length (rounds ks s) = 16"
proof (induction ks s rule: rounds.induct)
  case (1 s)
  then show ?case by simp
next
  case (2 k s)
  then show ?case
    by (simp add: add_round_key_cancel length_add_round_key length_shift_rows length_sub_bytes
        inv_shift_rows_shift_rows inv_sub_bytes_sub_bytes)
next
  case (3 k k' ks s)
  let ?t = "add_round_key k (mix_columns (shift_rows (sub_bytes s)))"
  have len: "length ?t = 16"
    using 3 by (simp add: length_add_round_key length_mix_columns length_shift_rows)
  with 3 have ih: "inv_rounds (k' # ks) (rounds (k' # ks) ?t) = ?t"
    "length (rounds (k' # ks) ?t) = 16"
    by simp_all
  have "add_round_key k ?t = mix_columns (shift_rows (sub_bytes s))"
    using 3 by (simp add: add_round_key_cancel length_mix_columns length_shift_rows)
  then show ?case
    using ih 3 by (simp add: inv_mix_columns_mix_columns length_shift_rows
        inv_shift_rows_shift_rows inv_sub_bytes_sub_bytes length_sub_bytes)
qed

lemma cipher_inverse:
  assumes "\<forall>k \<in> set rks. length k = 16" and "length b = 16"
  shows "inv_cipher rks (cipher rks b) = b \<and> length (cipher rks b) = 16"
proof (cases rks)
  case Nil
  then show ?thesis using assms by (simp add: cipher_def inv_cipher_def)
next
  case (Cons k0 ks)
  then have l: "length (add_round_key k0 b) = 16" and ks: "\<forall>k \<in> set ks. length k = 16"
    using assms by (simp_all add: length_add_round_key)
  from rounds_inverse[OF ks l] assms Cons show ?thesis
    by (simp add: cipher_def inv_cipher_def add_round_key_cancel)
qed

lemma length_next_word:
  "8 \<le> i \<Longrightarrow> i \<le> length w \<Longrightarrow> \<forall>x \<in> set w. length x = 4 \<Longrightarrow> length (next_word i w) = 4"
  by (simp add: next_word_def Let_def length_xor_bytes sub_word_def rot_word_def)

lemma expand_from_words:
  "8 \<le> i \<Longrightarrow> length w = i \<Longrightarrow> \<forall>x \<in> set w. length x = 4 \<Longrightarrow>
     length (expand_from n i w) = i + n \<and> (\<forall>x \<in> set (expand_from n i w). length x = 4)"
proof (induction n arbitrary: i w)
  case 0
  then show ?case by simp
next
  case (Suc n)
  have "length (next_word i w) = 4"
    using Suc.prems by (intro length_next_word) simp_all
  with Suc.prems have "length (expand_from n (Suc i) (w @ [next_word i w])) = Suc i + n \<and>
      (\<forall>x \<in> set (expand_from n (Suc i) (w @ [next_word i w])). length x = 4)"
    by (intro Suc.IH) auto
  then show ?case by simp
qed

lemma key_words_ok:
  "length key = 32 \<Longrightarrow> length (key_words key) = 8 \<and> (\<forall>x \<in> set (key_words key). length x = 4)"
  by (auto simp: key_words_def)

lemma key_expansion_ok:
  assumes "length key = 32"
  shows "length (key_expansion key) = 60" and "\<forall>x \<in> set (key_expansion key). length x = 4"
  using expand_from_words[of 8 "key_words key" 52] key_words_ok[OF assms]
  by (simp_all add: key_expansion_def)

lemma length_concat_words:
  "\<forall>x \<in> set ws. length x = 4 \<Longrightarrow> length (concat ws) = 4 * length ws"
  by (induction ws) simp_all

lemma round_keys_ok:
  assumes "length key = 32"
  shows "\<forall>k \<in> set (round_keys key). length k = 16"
proof
  fix k assume "k \<in> set (round_keys key)"
  then obtain r where r: "r < 15" and k: "k = concat (take 4 (drop (4 * r) (key_expansion key)))"
    by (auto simp: round_keys_def Let_def)
  have "\<forall>x \<in> set (take 4 (drop (4 * r) (key_expansion key))). length x = 4"
    using key_expansion_ok(2)[OF assms] by (meson in_set_dropD in_set_takeD)
  then have "length k = 4 * length (take 4 (drop (4 * r) (key_expansion key)))"
    unfolding k by (rule length_concat_words)
  also have "\<dots> = 16" using r key_expansion_ok(1)[OF assms] by simp
  finally show "length k = 16" .
qed

lemma cbc_inverse:
  "\<forall>k \<in> set rks. length k = 16 \<Longrightarrow> length prev = 16 \<Longrightarrow> \<forall>p \<in> set ps. length p = 16 \<Longrightarrow>
     cbc_decrypt rks prev (cbc_encrypt rks prev ps) = ps"
proof (induction ps arbitrary: prev)
  case Nil
  then show ?case by simp
next
  case (Cons p ps)
  have lx: "length (xor_bytes p prev) = 16" using Cons.prems by (simp add: length_xor_bytes)
  from cipher_inverse[OF Cons.prems(1) lx]
  have ci: "inv_cipher rks (cipher rks (xor_bytes p prev)) = xor_bytes p prev"
    and lc: "length (cipher rks (xor_bytes p prev)) = 16" by simp_all
  have "cbc_decrypt rks (cipher rks (xor_bytes p prev)) (cbc_encrypt rks (cipher rks (xor_bytes p prev)) ps) = ps"
    using Cons.prems lc by (intro Cons.IH) simp_all
  then show ?case using ci Cons.prems by (simp add: Let_def xor_bytes_cancel)
qed

lemma cbc_encrypt_lengths:
  "\<forall>k \<in> set rks. length k = 16 \<Longrightarrow> length prev = 16 \<Longrightarrow> \<forall>p \<in> set ps. length p = 16 \<Longrightarrow>
     length (cbc_encrypt rks prev ps) = length ps \<and> (\<forall>c \<in> set (cbc_encrypt rks prev ps). length c = 16)"
proof (induction ps arbitrary: prev)
  case Nil
  then show ?case by simp
next
  case (Cons p ps)
  have lx: "length (xor_bytes p prev) = 16" using Cons.prems by (simp add: length_xor_bytes)
  from cipher_inverse[OF Cons.prems(1) lx]
  have lc: "length (cipher rks (xor_bytes p prev)) = 16" by simp
  have "length (cbc_encrypt rks (cipher rks (xor_bytes p prev)) ps) = length ps \<and>
     (\<forall>c \<in> set (cbc_encrypt rks (cipher rks (xor_bytes p prev)) ps). length c = 16)"
    using Cons.prems lc by (intro Cons.IH) simp_all
  then show ?case using lc by (simp add: Let_def)
qed

lemma blocks16_concat:
  "\<forall>b \<in> set bss. length b = 16 \<Longrightarrow> blocks16 (concat bss) = bss"
proof (induction bss)
  case Nil
  then show ?case by (subst blocks16.simps) simp
next
  case (Cons b bss)
  then have "b \<noteq> []" by auto
  with Cons show ?case by (subst blocks16.simps) simp
qed

lemma blocks16_ok:
  "length bs mod 16 = 0 \<Longrightarrow> concat (blocks16 bs) = bs \<and> (\<forall>b \<in> set (blocks16 bs). length b = 16)"
proof (induction bs rule: blocks16.induct)
  case (1 bs)
  show ?case
  proof (cases "bs = []")
    case True
    then have "blocks16 bs = []" by (subst blocks16.simps) simp
    with True show ?thesis by simp
  next
    case False
    have l: "16 \<le> length bs"
    proof (rule ccontr)
      assume "\<not> 16 \<le> length bs"
      then have "length bs mod 16 = length bs" by simp
      with 1(2) False show False by simp
    qed
    then have d: "length (drop 16 bs) mod 16 = 0" using 1(2) by (simp add: le_mod_geq[symmetric])
    note ih = 1(1)[OF False d, THEN conjunct1] 1(1)[OF False d, THEN conjunct2]
    have eq: "blocks16 bs = take 16 bs # blocks16 (drop 16 bs)"
      using False by (subst blocks16.simps) simp
    have c: "concat (blocks16 bs) = bs"
      by (simp only: eq concat.simps ih(1) append_take_drop_id)
    have t: "length (take 16 bs) = 16"
      using l by (simp only: length_take min_absorb2)
    have "\<forall>b \<in> set (blocks16 bs). length b = 16"
    proof
      fix b assume "b \<in> set (blocks16 bs)"
      then have "b = take 16 bs \<or> b \<in> set (blocks16 (drop 16 bs))"
        by (simp only: eq list.set insert_iff)
      then show "length b = 16" using t ih(2) by blast
    qed
    with c show ?thesis by (rule conjI)
  qed
qed

lemma pad_total_length: "(length (bs :: byte list) + (16 - length bs mod 16)) mod 16 = 0"
proof -
  define m where "m = length bs mod 16"
  define q where "q = length bs div 16"
  have m: "m < 16" by (simp add: m_def)
  have "length bs = 16 * q + m" by (simp add: m_def q_def)
  with m have "length bs + (16 - m) = 16 * (q + 1)" by simp
  then have "(length bs + (16 - m)) mod 16 = 0" by simp
  then show ?thesis unfolding m_def .
qed

lemma pkcs7_pad_length: "length (pkcs7_pad bs) mod 16 = 0"
  unfolding pkcs7_pad_def Let_def length_append length_replicate by (rule pad_total_length)

lemma pkcs7_pad_nonempty: "pkcs7_pad bs \<noteq> []"
proof -
  have "replicate (16 - length bs mod 16) (of_nat (16 - length bs mod 16) :: byte) \<noteq> []"
    by simp
  then show ?thesis unfolding pkcs7_pad_def Let_def by blast
qed

lemma pkcs7_unpad_pad: "pkcs7_unpad (pkcs7_pad bs) = Inr bs"
proof -
  define n where "n = 16 - length bs mod 16"
  have n: "0 < n" "n \<le> 16" by (simp_all add: n_def)
  then have u: "unat (of_nat n :: byte) = n" by (simp add: unat_of_nat take_bit_nat_eq_self)
  have l: "last (bs @ replicate n (of_nat n :: byte)) = of_nat n" using n by simp
  show ?thesis
    unfolding pkcs7_pad_def pkcs7_unpad_def Let_def n_def[symmetric]
    using n u l by simp
qed

section \<open>Properties of the token\<close>

lemma hex_digit_check:
  "list_all (\<lambda>n. hex_val (hex_digit n) = Some n \<and> hex_digit n \<noteq> 0x3A) [0..<16]"
  by code_simp

lemma hex_digit_range: "n < 16 \<Longrightarrow> hex_val (hex_digit n) = Some n \<and> hex_digit n \<noteq> 0x3A"
  using hex_digit_check unfolding list_all_iff by simp

lemma byte_nibbles: "(of_nat (16 * (unat b div 16) + unat b mod 16) :: byte) = b"
  by simp

lemma from_hex_to_hex: "from_hex (to_hex bs) = bs"
proof (induction bs)
  case Nil
  then show ?case by (simp add: to_hex_def)
next
  case (Cons b bs)
  have "unat b < 256" using unsigned_less[of b] by simp
  then have d: "unat b div 16 < 16" by (simp add: less_mult_imp_div_less)
  have m: "unat b mod 16 < 16" by simp
  show ?case
    using Cons hex_digit_range[OF d] hex_digit_range[OF m]
    by (simp add: to_hex_def hex_of_byte_def byte_nibbles del: of_nat_add of_nat_mult)
qed

lemma to_hex_no_colon: "0x3A \<notin> set (to_hex bs)"
proof (induction bs)
  case Nil
  then show ?case by (simp add: to_hex_def)
next
  case (Cons b bs)
  have "unat b < 256" using unsigned_less[of b] by simp
  then have d: "unat b div 16 < 16" by (simp add: less_mult_imp_div_less)
  have m: "unat b mod 16 < 16" by simp
  show ?case
    using Cons hex_digit_range[OF d] hex_digit_range[OF m]
    by (auto simp: to_hex_def hex_of_byte_def)
qed

lemma split_no_sep: "sep \<notin> set xs \<Longrightarrow> split sep xs = [xs]"
  by (induction xs) auto

lemma split_at_sep: "sep \<notin> set xs \<Longrightarrow> split sep (xs @ sep # ys) = xs # split sep ys"
  by (induction xs) auto

lemma not_surrogate_ascii: "c < 0x80 \<Longrightarrow> \<not> is_high_surrogate c \<and> \<not> is_low_surrogate c"
  by (auto simp: is_high_surrogate_def is_low_surrogate_def word_less_nat_alt word_le_nat_alt)

lemma utf8_of_ascii: "(c :: 16 word) < 0x80 \<Longrightarrow> utf8_of_code_point (unat c) = [ucast c]"
  by (simp add: utf8_of_code_point_def word_less_nat_alt)

lemma utf8_encode_ascii: "\<forall>c \<in> set s. c < 0x80 \<Longrightarrow> utf8_encode s = map ucast s"
  by (induction s rule: utf8_encode.induct) (simp_all add: not_surrogate_ascii utf8_of_ascii)

lemma ucast_ascii_back: "(c :: 16 word) < 0x80 \<Longrightarrow> (ucast (ucast c :: byte) :: 16 word) = c \<and> (ucast c :: byte) < 0x80"
  by (simp add: word_unat_eq_iff word_less_nat_alt unsigned_ucast_eq unsigned_take_bit_eq take_bit_nat_eq_self)

lemma utf8_decode_ascii: "\<forall>c \<in> set s. c < 0x80 \<Longrightarrow> utf8_decode (map ucast s) = s"
  by (induction s) (simp_all add: ucast_ascii_back)


lemma utf8_roundtrip_ascii:
  "\<forall>c \<in> set s. c < 0x80 \<Longrightarrow> utf8_decode (utf8_encode s) = s"
  by (simp add: utf8_encode_ascii utf8_decode_ascii)

lemma length_concat_blocks:
  "\<forall>c \<in> set cs. length c = 16 \<Longrightarrow> length (concat cs) = 16 * length cs"
  by (induction cs) simp_all

lemma aes256_cbc_roundtrip:
  assumes k: "length key = 32" and iv: "length iv = 16"
  shows "\<exists>enc. aes256_cbc_encrypt key iv plain = Inr enc \<and> aes256_cbc_decrypt key iv enc = Inr plain"
proof -
  let ?rks = "round_keys key"
  let ?ps = "blocks16 (pkcs7_pad plain)"
  let ?cs = "cbc_encrypt ?rks iv ?ps"
  have rk: "\<forall>k \<in> set ?rks. length k = 16" by (rule round_keys_ok[OF k])
  from blocks16_ok[OF pkcs7_pad_length]
  have ps: "concat ?ps = pkcs7_pad plain" "\<forall>p \<in> set ?ps. length p = 16" by blast+
  have ne: "?ps \<noteq> []" using ps(1) pkcs7_pad_nonempty[of plain] by auto
  from cbc_encrypt_lengths[OF rk iv ps(2)]
  have cs: "length ?cs = length ?ps" "\<forall>c \<in> set ?cs. length c = 16" by blast+
  have lc: "length (concat ?cs) = 16 * length ?cs"
    using cs(2) by (rule length_concat_blocks)
  have cne: "concat ?cs \<noteq> []" using lc cs(1) ne by (metis length_0_conv mult_is_0 zero_neq_numeral)
  have dec: "cbc_decrypt ?rks iv (blocks16 (concat ?cs)) = ?ps"
    by (simp only: blocks16_concat[OF cs(2)] cbc_inverse[OF rk iv ps(2)])
  have "aes256_cbc_encrypt key iv plain = Inr (concat ?cs)"
    using k iv by (simp add: aes256_cbc_encrypt_def)
  moreover have "aes256_cbc_decrypt key iv (concat ?cs) = Inr plain"
    using k iv cne lc by (simp add: aes256_cbc_decrypt_def dec ps(1) pkcs7_unpad_pad)
  ultimately show ?thesis by blast
qed

lemma hex_digit_ascii_check: "list_all (\<lambda>n. hex_digit n < 0x80) [0..<16]"
  by code_simp

lemma to_hex_ascii: "\<forall>c \<in> set (to_hex bs). c < 0x80"
proof (induction bs)
  case Nil
  then show ?case by (simp add: to_hex_def)
next
  case (Cons b bs)
  have "unat b < 256" using unsigned_less[of b] by simp
  then have d: "unat b div 16 < 16" by (simp add: less_mult_imp_div_less)
  have m: "unat b mod 16 < 16" by simp
  from hex_digit_ascii_check d m
  have "hex_digit (unat b div 16) < 0x80" "hex_digit (unat b mod 16) < 0x80"
    unfolding list_all_iff by simp_all
  with Cons show ?case by (auto simp: to_hex_def hex_of_byte_def)
qed

lemma length_to_hex: "length (to_hex bs) = 2 * length bs"
  by (induction bs) (simp_all add: to_hex_def hex_of_byte_def)

lemma key_bytes_length: "length (utf8_encode (to_hex bs)) = 2 * length bs"
  by (simp add: utf8_encode_ascii[OF to_hex_ascii] length_to_hex)

lemma split_token: "split 0x3A (to_hex iv @ js '':'' @ to_hex enc) = [to_hex iv, to_hex enc]"
proof -
  have "js '':'' = [0x3A]" by (simp add: js_def)
  then show ?thesis
    by (simp add: split_at_sep[OF to_hex_no_colon] split_no_sep[OF to_hex_no_colon])
qed

lemma decrypt_encrypt:
  assumes key: "secretKey st = Some (to_hex secretKeyBuf)" "length secretKeyBuf = 16"
    and iv: "length iv = 16"
    and s: "\<forall>c \<in> set s. c < 0x80"
  shows "\<exists>token. encrypt (Inr iv) st s = Inr token \<and> decrypt st (JStr token) = Inr s"
proof -
  have k: "length (utf8_encode (to_hex secretKeyBuf)) = 32"
    using key(2) by (simp add: key_bytes_length)
  from aes256_cbc_roundtrip[OF k iv, of "utf8_encode s"]
  obtain enc where e: "aes256_cbc_encrypt (utf8_encode (to_hex secretKeyBuf)) iv (utf8_encode s) = Inr enc"
    and d: "aes256_cbc_decrypt (utf8_encode (to_hex secretKeyBuf)) iv enc = Inr (utf8_encode s)"
    by blast
  have "encrypt (Inr iv) st s = Inr (to_hex iv @ js '':'' @ to_hex enc)"
    using key(1) e by (simp add: encrypt_def)
  moreover have "decrypt st (JStr (to_hex iv @ js '':'' @ to_hex enc)) = Inr s"
    using key(1) d by (simp add: decrypt_def split_token from_hex_to_hex utf8_roundtrip_ascii[OF s])
  ultimately show ?thesis by blast
qed

lemma example_verifier_ascii: "\<forall>c \<in> set example_verifier. c < 0x80"
  by (simp add: example_verifier_def js_def)

section \<open>Round trip of the token\<close>

text \<open>
  C1.  With the secret key of the process (the hexadecimal text of 16 random bytes, as
  \<^verbatim>\<open>register\<close> sets it) and any initialization vector of 16 bytes drawn by
  \<^verbatim>\<open>encrypt\<close>, encrypting a string of ASCII code units (which include the alphabet of
  the code verifier and of the token) succeeds, and decrypting the token gives the
  string back.
\<close>

theorem decrypt_encrypt_roundtrip:
  assumes "secretKey st = Some (to_hex secretKeyBuf)" and "length secretKeyBuf = 16"
    and "length iv = 16"
    and "\<forall>c \<in> set s. c < 0x80"
  shows "\<exists>token. encrypt (Inr iv) st s = Inr token \<and> decrypt st (JStr token) = Inr s"
  using assms by (rule decrypt_encrypt)

theorem decrypt_encrypt_roundtrip_witness:
  "\<exists>token. encrypt (Inr example_iv) example_store example_verifier = Inr token
     \<and> decrypt example_store (JStr token) = Inr example_verifier"
  by (rule decrypt_encrypt_roundtrip
        [of example_store "[0, 1, 2, 3, 4, 5, 6, 7, 8, 9, 10, 11, 12, 13, 14, 15]"])
    (simp_all add: example_store_def example_iv_def example_verifier_ascii)

section \<open>The callback\<close>

lemma example_token_roundtrip:
  "encrypt (Inr example_iv) example_store example_verifier = Inr example_token
     \<and> decrypt example_store (JStr example_token) = Inr example_verifier"
proof -
  have "\<exists>token. encrypt (Inr example_iv) example_store example_verifier = Inr token
     \<and> decrypt example_store (JStr token) = Inr example_verifier"
    by (rule decrypt_encrypt[of example_store "[0, 1, 2, 3, 4, 5, 6, 7, 8, 9, 10, 11, 12, 13, 14, 15]"])
      (simp_all add: example_store_def example_iv_def example_verifier_ascii)
  then show ?thesis by (auto simp: example_token_def)
qed

lemma example_token_nonempty: "example_token \<noteq> []"
proof
  assume "example_token = []"
  with example_token_roundtrip have "decrypt example_store (JStr []) = Inr example_verifier"
    by simp
  then show False by (simp add: decrypt_def)
qed

text \<open>The callback up to the hand-off, when every step before the mapping succeeds.\<close>

lemma handleCb_hand_off:
  assumes "userAuthenticated st = Some h"
    and "truthy (cookies req cookieName)"
    and "decrypt st (cookies req cookieName) = Inr cv"
    and "client st = Some c"
    and "callback e c req (case redirectUrl st of None \<Rightarrow> JNull | Some u \<Rightarrow> JStr u) cv = Inr accessToken"
    and "userinfo e c accessToken = Inr userInfo"
    and "getSettings e = Inr settings"
    and "mapIdentity settings userInfo = Inr ident"
  shows "handleCb e st req =
     ([Log LDebug ''Got userinfo from openid auth.'' None, UserAuthenticated h ident] @
      (case accept e h ident of
         None \<Rightarrow> []
       | Some err \<Rightarrow> Log LError ''Error in handle callback.'' (Some err) # fst (onCBError e)),
      (case accept e h ident of
         None \<Rightarrow> None
       | Some err \<Rightarrow> snd (onCBError e)))"
  using assms by (simp add: handleCb_def callbackSteps_def Let_def split: option.split)

lemma username_of_identity:
  assumes "truthy (userInfo (to_string (settings ''username-property''))) \<longrightarrow>
           userInfo (to_string (settings ''username-property'')) = JStr s"
  shows "\<exists>ident. mapIdentity settings userInfo = Inr ident
     \<and> username ident =
         replace_disallowed (if truthy (userInfo (to_string (settings ''username-property''))) then s else [])
     \<and> role ident = mapRole settings userInfo"
  using assms by (auto simp: mapIdentity_def mapUsername_def Let_def)

lemma replace_john: "replace_disallowed (js ''John.Doe'') = js ''_ohn._oe''"
  by (simp add: replace_disallowed_def js_def allowed_def)

lemma replace_jane: "replace_disallowed (js ''jane_99'') = js ''jane_99''"
  by (simp add: replace_disallowed_def js_def allowed_def)

lemma example_settings_simps:
  "example_settings ''username-property'' = JStr (js ''preferred_username'')"
  "example_settings ''role-property'' = JStr (js ''role'')"
  "example_settings ''mail-property'' = JStr (js ''email'')"
  "example_settings ''display-name-property'' = JUndefined"
  by (simp_all add: example_settings_def)

lemma allowed_set: "allowed c \<longleftrightarrow> c \<in> set (js ''abcdefghijklmnopqrstuvwxyz0123456789._'')"
  by (simp add: allowed_def js_def word_le_nat_alt word_unat_eq_iff) arith

lemma is_digit_set: "is_digit c \<longleftrightarrow> c \<in> set (js ''0123456789'')"
  by (simp add: is_digit_def js_def word_le_nat_alt word_unat_eq_iff) arith

lemma replace_disallowed_set:
  "replace_disallowed s =
     map (\<lambda>c. if c \<in> set (js ''abcdefghijklmnopqrstuvwxyz0123456789._'') then c else 0x5F) s"
  unfolding replace_disallowed_def allowed_set ..

text \<open>
  C3.  When the callback reaches the hand-off, the username passed to the host is the
  value of the configured username property, or the empty string when that value is
  falsy, in which every code unit outside \<^verbatim>\<open>a-z\<close>, \<^verbatim>\<open>0-9\<close>, \<^verbatim>\<open>.\<close> and \<^verbatim>\<open>_\<close> is
  replaced by \<^verbatim>\<open>_\<close>.  Case is not folded: \<^verbatim>\<open>John.Doe\<close> becomes \<^verbatim>\<open>_ohn._oe\<close>, and
  \<^verbatim>\<open>jane_99\<close> is unchanged.
\<close>

theorem username_sanitized:
  assumes "userAuthenticated st = Some h"
    and "truthy (cookies req cookieName)"
    and "decrypt st (cookies req cookieName) = Inr cv"
    and "client st = Some c"
    and "callback e c req (case redirectUrl st of None \<Rightarrow> JNull | Some u \<Rightarrow> JStr u) cv = Inr accessToken"
    and "userinfo e c accessToken = Inr userInfo"
    and "getSettings e = Inr settings"
    and "truthy (userInfo (to_string (settings ''username-property''))) \<longrightarrow>
         userInfo (to_string (settings ''username-property'')) = JStr s"
  shows "(\<exists>ident. UserAuthenticated h ident \<in> set (fst (handleCb e st req))
            \<and> username ident =
                map (\<lambda>c. if c \<in> set (js ''abcdefghijklmnopqrstuvwxyz0123456789._'') then c else 0x5F)
                  (if truthy (userInfo (to_string (settings ''username-property''))) then s else []))
         \<and> replace_disallowed (js ''John.Doe'') = js ''_ohn._oe''
         \<and> replace_disallowed (js ''jane_99'') = js ''jane_99''"
proof -
  from username_of_identity[of userInfo settings s, OF assms(8)] obtain ident where
    i: "mapIdentity settings userInfo = Inr ident"
    and u: "username ident =
         replace_disallowed (if truthy (userInfo (to_string (settings ''username-property''))) then s else [])"
    by blast
  have "UserAuthenticated h ident \<in> set (fst (handleCb e st req))"
    by (simp add: handleCb_hand_off[OF assms(1-7) i])
  with u show ?thesis
    unfolding replace_disallowed_set[symmetric] using replace_john replace_jane by blast
qed

lemma example_identity:
  "mapIdentity example_settings example_userinfo =
     Inr \<lparr>username = js ''_ohn._oe'', email = JStr (js ''john@idp.example''),
          displayName = JUndefined, role = Some (Num 2)\<rparr>"
  by (simp add: mapIdentity_def mapUsername_def mapDisplayName_def mapRole_def
      example_settings_simps example_userinfo_def replace_disallowed_def allowed_def Let_def
      parseInt10_def is_white_space_def is_digit_def digits_value_def js_def)


theorem username_sanitized_witness:
  "\<exists>ident. UserAuthenticated 0 ident \<in> set (fst (handleCb example_env example_store example_request))
      \<and> username ident = js ''_ohn._oe''"
proof -
  have "(\<exists>ident. UserAuthenticated 0 ident \<in> set (fst (handleCb example_env example_store example_request))
            \<and> username ident =
                map (\<lambda>c. if c \<in> set (js ''abcdefghijklmnopqrstuvwxyz0123456789._'') then c else 0x5F)
                  (if truthy (example_userinfo (to_string (example_settings ''username-property'')))
                   then js ''John.Doe'' else []))
         \<and> replace_disallowed (js ''John.Doe'') = js ''_ohn._oe''
         \<and> replace_disallowed (js ''jane_99'') = js ''jane_99''"
  proof (rule username_sanitized[where cv = example_verifier and c = example_client
        and accessToken = "JStr (js ''SlAV32hkKG'')"])
    show "userAuthenticated example_store = Some 0" by (simp add: example_store_def)
    show "truthy (cookies example_request cookieName)"
      by (simp add: example_request_def example_token_nonempty)
    show "decrypt example_store (cookies example_request cookieName) = Inr example_verifier"
      by (simp add: example_request_def example_token_roundtrip)
    show "client example_store = Some example_client" by (simp add: example_store_def)
    show "callback example_env example_client example_request
        (case redirectUrl example_store of None \<Rightarrow> JNull | Some u \<Rightarrow> JStr u) example_verifier
        = Inr (JStr (js ''SlAV32hkKG''))"
      by (simp add: example_env_def)
    show "userinfo example_env example_client (JStr (js ''SlAV32hkKG'')) = Inr example_userinfo"
      by (simp add: example_env_def)
    show "getSettings example_env = Inr example_settings" by (simp add: example_env_def)
    show "truthy (example_userinfo (to_string (example_settings ''username-property''))) \<longrightarrow>
         example_userinfo (to_string (example_settings ''username-property'')) = JStr (js ''John.Doe'')"
      by (simp add: example_settings_simps example_userinfo_def)
  qed
  then show ?thesis
    by (simp add: replace_disallowed_set[symmetric] example_settings_simps example_userinfo_def js_def)
qed

lemma example_run:
  "userAuthenticated example_store = Some 0"
  "truthy (cookies example_request cookieName)"
  "decrypt example_store (cookies example_request cookieName) = Inr example_verifier"
  "client example_store = Some example_client"
proof -
  show "userAuthenticated example_store = Some 0" by (simp add: example_store_def)
  show "truthy (cookies example_request cookieName)"
    by (simp add: example_request_def example_token_nonempty)
  show "decrypt example_store (cookies example_request cookieName) = Inr example_verifier"
    by (simp add: example_request_def example_token_roundtrip)
  show "client example_store = Some example_client" by (simp add: example_store_def)
qed

lemma example_callback:
  "callback (example_env\<lparr>getSettings := gs, userinfo := ui\<rparr>) example_client example_request
     (case redirectUrl example_store of None \<Rightarrow> JNull | Some u \<Rightarrow> JStr u) example_verifier
   = Inr (JStr (js ''SlAV32hkKG''))"
  by (simp add: example_env_def)

lemma role_of_identity:
  "mapIdentity settings userInfo = Inr ident \<Longrightarrow> role ident = mapRole settings userInfo"
  by (auto simp: mapIdentity_def split: sum.splits)

lemma parseInt10_two: "parseInt10 (js ''2'') = Num 2"
  by (simp add: parseInt10_def is_white_space_def is_digit_def digits_value_def js_def)

lemma parseInt10_undefined: "parseInt10 (js ''undefined'') = NaN"
  by (simp add: parseInt10_def is_white_space_def is_digit_def js_def)

text \<open>
  C4.  When the callback reaches the hand-off: if the role property is not set, the
  identity passed to the host has no role; if it is set and the named value of the
  userinfo is the string \<^verbatim>\<open>2\<close>, the role is the number 2; if it is set and the userinfo
  has no such value, the role is \<^verbatim>\<open>NaN\<close>, passed to the host as it is.
\<close>

theorem role_mapping:
  assumes "userAuthenticated st = Some h"
    and "truthy (cookies req cookieName)"
    and "decrypt st (cookies req cookieName) = Inr cv"
    and "client st = Some c"
    and "callback e c req (case redirectUrl st of None \<Rightarrow> JNull | Some u \<Rightarrow> JStr u) cv = Inr accessToken"
    and "userinfo e c accessToken = Inr userInfo"
    and "getSettings e = Inr settings"
    and "truthy (userInfo (to_string (settings ''username-property''))) \<longrightarrow>
         userInfo (to_string (settings ''username-property'')) = JStr s"
  shows "\<exists>ident. UserAuthenticated h ident \<in> set (fst (handleCb e st req))
     \<and> (\<not> truthy (settings ''role-property'') \<longrightarrow> role ident = None)
     \<and> (truthy (settings ''role-property'') \<longrightarrow>
          userInfo (to_string (settings ''role-property'')) = JStr (js ''2'') \<longrightarrow>
          role ident = Some (Num 2))
     \<and> (truthy (settings ''role-property'') \<longrightarrow>
          userInfo (to_string (settings ''role-property'')) = JUndefined \<longrightarrow>
          role ident = Some NaN)"
proof -
  from username_of_identity[of userInfo settings s, OF assms(8)] obtain ident where
    i: "mapIdentity settings userInfo = Inr ident" and r: "role ident = mapRole settings userInfo"
    by blast
  have "UserAuthenticated h ident \<in> set (fst (handleCb e st req))"
    by (simp add: handleCb_hand_off[OF assms(1-7) i])
  then show ?thesis
    using r by (auto simp: mapRole_def parseInt10_two parseInt10_undefined)
qed

lemma env_with_run:
  "callback (env_with gs ui) example_client example_request
     (case redirectUrl example_store of None \<Rightarrow> JNull | Some u \<Rightarrow> JStr u) example_verifier
   = Inr (JStr (js ''SlAV32hkKG''))"
  "userinfo (env_with gs ui) example_client (JStr (js ''SlAV32hkKG'')) = Inr ui"
  "getSettings (env_with gs ui) = Inr gs"
  by (simp_all add: env_with_def example_env_def)

lemma example_username:
  "truthy (example_userinfo (to_string (example_settings ''username-property''))) \<longrightarrow>
     example_userinfo (to_string (example_settings ''username-property'')) = JStr (js ''John.Doe'')"
  "truthy ((example_userinfo(js ''role'' := v)) (to_string (example_settings ''username-property''))) \<longrightarrow>
     (example_userinfo(js ''role'' := v)) (to_string (example_settings ''username-property'')) = JStr (js ''John.Doe'')"
  "truthy (example_userinfo (to_string ((example_settings(''role-property'' := w)) ''username-property''))) \<longrightarrow>
     example_userinfo (to_string ((example_settings(''role-property'' := w)) ''username-property'')) = JStr (js ''John.Doe'')"
  by (simp_all add: example_settings_def example_userinfo_def js_def)

theorem role_mapping_witness:
  "(\<exists>ident. UserAuthenticated 0 ident \<in>
        set (fst (handleCb (env_with (example_settings(''role-property'' := JUndefined)) example_userinfo)
               example_store example_request))
      \<and> role ident = None)
   \<and> (\<exists>ident. UserAuthenticated 0 ident \<in>
        set (fst (handleCb (env_with example_settings (example_userinfo(js ''role'' := JStr (js ''2''))))
               example_store example_request))
      \<and> role ident = Some (Num 2))
   \<and> (\<exists>ident. UserAuthenticated 0 ident \<in>
        set (fst (handleCb (env_with example_settings (example_userinfo(js ''role'' := JUndefined)))
               example_store example_request))
      \<and> role ident = Some NaN)"
proof (intro conjI)
  from role_mapping[OF example_run
      env_with_run[of "example_settings(''role-property'' := JUndefined)" example_userinfo]
      example_username(3)[of JUndefined]]
  show "\<exists>ident. UserAuthenticated 0 ident \<in>
        set (fst (handleCb (env_with (example_settings(''role-property'' := JUndefined)) example_userinfo)
               example_store example_request))
      \<and> role ident = None"
    by auto
  from role_mapping[OF example_run
      env_with_run[of example_settings "example_userinfo(js ''role'' := JStr (js ''2''))"]
      example_username(2)[of "JStr (js ''2'')"]]
  show "\<exists>ident. UserAuthenticated 0 ident \<in>
        set (fst (handleCb (env_with example_settings (example_userinfo(js ''role'' := JStr (js ''2''))))
               example_store example_request))
      \<and> role ident = Some (Num 2)"
    by (auto simp: example_settings_simps js_def)
  from role_mapping[OF example_run
      env_with_run[of example_settings "example_userinfo(js ''role'' := JUndefined)"]
      example_username(2)[of JUndefined]]
  show "\<exists>ident. UserAuthenticated 0 ident \<in>
        set (fst (handleCb (env_with example_settings (example_userinfo(js ''role'' := JUndefined)))
               example_store example_request))
      \<and> role ident = Some NaN"
    by (auto simp: example_settings_simps js_def)
qed

lemma digits_value_snoc: "digits_value (ds @ [c]) = 10 * digits_value ds + (unat c - 48)"
  by (simp add: digits_value_def)

lemma digits_value_sum:
  "digits_value ds = (\<Sum>i<length ds. (unat (ds ! i) - 48) * 10 ^ (length ds - Suc i))"
proof (induction ds rule: rev_induct)
  case Nil
  then show ?case by (simp add: digits_value_def)
next
  case (snoc c ds)
  have "(\<Sum>i<length ds. (unat ((ds @ [c]) ! i) - 48) * 10 ^ (length (ds @ [c]) - Suc i))
      = (\<Sum>i<length ds. 10 * ((unat (ds ! i) - 48) * 10 ^ (length ds - Suc i)))"
  proof (rule sum.cong[OF refl])
    fix i assume "i \<in> {..<length ds}"
    then have i: "i < length ds" by simp
    then have "length (ds @ [c]) - Suc i = Suc (length ds - Suc i)" by simp
    then show "(unat ((ds @ [c]) ! i) - 48) * 10 ^ (length (ds @ [c]) - Suc i)
        = 10 * ((unat (ds ! i) - 48) * 10 ^ (length ds - Suc i))"
      using i by (simp add: nth_append)
  qed
  also have "\<dots> = 10 * digits_value ds"
    by (simp add: snoc.IH sum_distrib_left)
  finally show ?case
    by (simp add: digits_value_snoc)
qed

lemma digit_not_space: "is_digit c \<Longrightarrow> \<not> is_white_space c \<and> c \<noteq> 0x2D \<and> c \<noteq> 0x2B"
  by (auto simp: is_digit_def is_white_space_def word_le_nat_alt word_unat_eq_iff)

lemma parseInt10_prefix:
  assumes "ds \<noteq> []" and "\<forall>c \<in> set ds. is_digit c"
    and "rest \<noteq> []" and "\<not> is_digit (hd rest)"
    and "digits_value ds \<le> 2 ^ 53"
  shows "parseInt10 (ds @ rest) = Num (int (digits_value ds))"
proof -
  obtain d ds' where ds: "ds = d # ds'" using assms(1) by (cases ds) auto
  then have d: "is_digit d" using assms(2) by simp
  note n = digit_not_space[OF d]
  have s1: "dropWhile is_white_space (ds @ rest) = ds @ rest"
    using n by (simp add: ds)
  obtain r rest' where rest: "rest = r # rest'" using assms(3) by (cases rest) auto
  have tw: "takeWhile is_digit (ds @ rest) = ds"
    using assms(2,4) by (simp add: takeWhile_append2 rest)
  show ?thesis
    unfolding parseInt10_def s1 Let_def
    using n assms(1,5) tw by (simp add: ds)
qed

text \<open>
  C10.  When the role property is set and the named value of the userinfo is a string
  that starts with decimal digits followed by a code unit that is not a digit, the role
  passed to the host is the number those digits denote in radix 10 (exactly, for a
  number up to \<open>2 ^ 53\<close>): \<^verbatim>\<open>2abc\<close> gives 2, neither a failure nor \<^verbatim>\<open>NaN\<close>.
\<close>

theorem role_numeric_prefix:
  assumes "userAuthenticated st = Some h"
    and "truthy (cookies req cookieName)"
    and "decrypt st (cookies req cookieName) = Inr cv"
    and "client st = Some c"
    and "callback e c req (case redirectUrl st of None \<Rightarrow> JNull | Some u \<Rightarrow> JStr u) cv = Inr accessToken"
    and "userinfo e c accessToken = Inr userInfo"
    and "getSettings e = Inr settings"
    and "truthy (userInfo (to_string (settings ''username-property''))) \<longrightarrow>
         userInfo (to_string (settings ''username-property'')) = JStr s"
    and "truthy (settings ''role-property'')"
    and "userInfo (to_string (settings ''role-property'')) = JStr (ds @ rest)"
    and "ds \<noteq> []" and "\<forall>d \<in> set ds. d \<in> set (js ''0123456789'')"
    and "rest \<noteq> []" and "hd rest \<notin> set (js ''0123456789'')"
    and "(\<Sum>i<length ds. (unat (ds ! i) - 48) * 10 ^ (length ds - Suc i)) \<le> 2 ^ 53"
  shows "\<exists>ident. UserAuthenticated h ident \<in> set (fst (handleCb e st req))
     \<and> role ident =
         Some (Num (int (\<Sum>i<length ds. (unat (ds ! i) - 48) * 10 ^ (length ds - Suc i))))"
proof -
  from username_of_identity[of userInfo settings s, OF assms(8)] obtain ident where
    i: "mapIdentity settings userInfo = Inr ident" and r: "role ident = mapRole settings userInfo"
    by blast
  have "UserAuthenticated h ident \<in> set (fst (handleCb e st req))"
    by (simp add: handleCb_hand_off[OF assms(1-7) i])
  moreover have "parseInt10 (ds @ rest) = Num (int (digits_value ds))"
    using assms(11-15) by (intro parseInt10_prefix) (simp_all add: is_digit_set digits_value_sum)
  ultimately show ?thesis
    using r assms(9,10) by (auto simp: mapRole_def digits_value_sum)
qed

theorem role_numeric_prefix_witness:
  "\<exists>ident. UserAuthenticated 0 ident \<in> set (fst (handleCb example_env example_store example_request))
     \<and> role ident = Some (Num 2)"
proof -
  have e: "env_with example_settings example_userinfo = example_env"
    by (simp add: env_with_def example_env_def)
  have "\<exists>ident. UserAuthenticated 0 ident \<in>
           set (fst (handleCb (env_with example_settings example_userinfo) example_store example_request))
     \<and> role ident =
         Some (Num (int (\<Sum>i<length (js ''2''). (unat (js ''2'' ! i) - 48) * 10 ^ (length (js ''2'') - Suc i))))"
    by (rule role_numeric_prefix[OF example_run
          env_with_run[of example_settings example_userinfo] example_username(1),
          where rest = "js ''abc''"])
      (simp_all add: example_settings_simps example_userinfo_def js_def)
  then show ?thesis by (simp add: e js_def)
qed

lemma example_token_form: "\<exists>enc. example_token = to_hex example_iv @ js '':'' @ to_hex enc"
proof -
  from example_token_roundtrip
  have "encrypt (Inr example_iv) example_store example_verifier = Inr example_token" by simp
  then have "\<exists>enc. to_hex example_iv @ js '':'' @ to_hex enc = example_token"
    by (auto simp: encrypt_def split: option.splits sum.splits)
  then obtain enc where "to_hex example_iv @ js '':'' @ to_hex enc = example_token" by blast
  then have "example_token = to_hex example_iv @ js '':'' @ to_hex enc" by (rule sym)
  then show ?thesis by blast
qed

lemma decrypt_long_iv: "decrypt example_store (JStr (js ''00'' @ example_token)) = Inl InvalidIV"
proof -
  from example_token_form obtain enc where
    t: "example_token = to_hex example_iv @ js '':'' @ to_hex enc" by blast
  have c: "js '':'' = [0x3A]" and z: "js ''00'' = [48, 48]" by (simp_all add: js_def)
  have n: "0x3A \<notin> set (js ''00'' @ to_hex example_iv)"
    using to_hex_no_colon[of example_iv] by (simp add: z)
  have sp: "split 0x3A (js ''00'' @ example_token) = [js ''00'' @ to_hex example_iv, to_hex enc]"
    using split_at_sep[OF n, of "to_hex enc"] split_no_sep[OF to_hex_no_colon[of enc]]
    by (simp add: t c)
  have "from_hex (js ''00'' @ to_hex example_iv) = 0 # example_iv"
    by (simp add: z hex_val_def from_hex_to_hex)
  then show ?thesis
    by (simp add: decrypt_def sp example_store_def aes256_cbc_decrypt_def example_iv_def)
qed

text \<open>
  C5.  A callback whose transport cookie is missing, or present but not decryptable,
  is answered, on a response that accepts the redirect, by one log entry on the server
  and the redirect to \<^verbatim>\<open>/login?externalAuthError=true\<close>; nothing else is written to
  the response and the host is not called.
\<close>

theorem callback_cookie_error:
  assumes "res_redirect e = None"
    and "\<not> truthy (cookies req cookieName)
         \<or> (\<exists>err. decrypt st (cookies req cookieName) = Inl err)"
  shows "\<exists>l m err. handleCb e st req =
           ([Log l m err, Redirect (js ''/login?externalAuthError=true'')], None)"
  using assms
  by (auto simp: handleCb_def onCBError_def errorUrl_def callbackSteps_def Let_def)

theorem callback_cookie_error_witness:
  "(\<exists>l m err. handleCb example_env example_store (example_request\<lparr>cookies := (\<lambda>name. JUndefined)\<rparr>)
       = ([Log l m err, Redirect (js ''/login?externalAuthError=true'')], None))
   \<and> (\<exists>l m err. handleCb example_env example_store
         (example_request\<lparr>cookies := (\<lambda>name. JStr (js ''tampered''))\<rparr>)
       = ([Log l m err, Redirect (js ''/login?externalAuthError=true'')], None))
   \<and> (\<exists>l m err. handleCb example_env example_store
         (example_request\<lparr>cookies := (\<lambda>name. JStr (js ''00'' @ example_token))\<rparr>)
       = ([Log l m err, Redirect (js ''/login?externalAuthError=true'')], None))"
proof -
  have r: "res_redirect example_env = None" by (simp add: example_env_def)
  have g: "decrypt example_store (JStr (js ''tampered'')) = Inl TypeError"
    by (simp add: decrypt_def js_def)
  from callback_cookie_error[OF r, of "example_request\<lparr>cookies := (\<lambda>name. JUndefined)\<rparr>" example_store]
    callback_cookie_error[OF r, of "example_request\<lparr>cookies := (\<lambda>name. JStr (js ''tampered''))\<rparr>"
      example_store]
    callback_cookie_error[OF r, of "example_request\<lparr>cookies := (\<lambda>name. JStr (js ''00'' @ example_token))\<rparr>"
      example_store]
  show ?thesis by (simp add: g decrypt_long_iv)
qed

section \<open>Reconfiguration\<close>

lemma example_settings_more:
  "example_settings ''discover-url'' = JStr (js ''https://idp.example/.well-known'')"
  "example_settings ''client-id'' = JStr (js ''abc'')"
  "example_settings ''client-secret'' = JUndefined"
  by (simp_all add: example_settings_def)

lemma js_append: "js (a @ b) = js a @ js b"
  by (simp add: js_def)

lemma js_nonempty: "js (c # cs) \<noteq> []"
  by (simp add: js_def)

lemma example_installation:
  "register (example_env\<lparr>randomBytes := Inr [0, 1, 2, 3, 4, 5, 6, 7, 8, 9, 10, 11, 12, 13, 14, 15]\<rparr>)
     (initial_store, initial_host)
   = (None, example_store, example_host, [Log LDebug ''Discovered issuer %s.'' None])"
proof -
  have u: "js ''https://peertube.example'' @ js ''/plugins/auth-openid-connect/router/id-token-cb''
      = example_redirectUrl"
    by (simp add: example_redirectUrl_def js_def)
  show ?thesis
    by (simp add: register_def loadSettingsAndCreateClient_def loadSettingsAndCreateClient_begin_def
        loadSettingsAndCreateClient_resume_def registerExternalAuth_def Let_def
        initial_store_def initial_host_def example_env_def example_settings_more js_nonempty u
        newClient_def example_store_def example_host_def example_client_def)
qed

text \<open>
  C2.  The claim fails on the code.  After a first registration, a reconfiguration with
  an empty discover URL calls \<^verbatim>\<open>unregisterExternalAuth('openid')\<close>, but the method was
  registered under the name \<^verbatim>\<open>openid-connect\<close>: it stays registered with the host.
\<close>

theorem disabled_keeps_registration:
  "loadSettingsAndCreateClient
     (example_env\<lparr>getSettings := Inr (example_settings(''discover-url'' := JStr []))\<rparr>)
     (example_store, example_host)
   = (None, example_store\<lparr>client := None, userAuthenticated := None\<rparr>,
      \<lparr>externalAuths = [js ''openid-connect''], registrations = 1\<rparr>,
      [Log LInfo ''Do not register external openid auth because discover URL is not set.'' None])"
  by (simp add: loadSettingsAndCreateClient_def loadSettingsAndCreateClient_begin_def
      loadSettingsAndCreateClient_resume_def unregisterExternalAuth_def Let_def
      example_env_def example_store_def example_host_def js_def)

lemma begin_clears:
  "userAuthenticated (fst (loadSettingsAndCreateClient_begin (st, h))) = None
   \<and> client (fst (loadSettingsAndCreateClient_begin (st, h))) = None
   \<and> registrations (snd (loadSettingsAndCreateClient_begin (st, h))) = registrations h"
  by (simp add: loadSettingsAndCreateClient_begin_def Let_def unregisterExternalAuth_def)

lemma handleCb_no_acceptor:
  "userAuthenticated st = None \<Longrightarrow> res_redirect e = None \<Longrightarrow>
     handleCb e st req =
       ([Log LInfo ''Received callback but cannot userAuthenticated function does not exist.'' None,
         Redirect (js ''/login?externalAuthError=true'')], None)"
  by (simp add: handleCb_def onCBError_def errorUrl_def)

lemma resume_registers:
  assumes "getSettings e = Inr settings"
    and "truthy (settings ''discover-url'')"
    and "settings ''client-id'' = JStr clientId" and "clientId \<noteq> []"
    and "discover e (settings ''discover-url'') = Inr iss"
    and "userAuthenticated st = None"
  shows "userAuthenticated (fst (snd (loadSettingsAndCreateClient_resume e (st, h))))
           = Some (registrations h)"
    and "fst (snd (snd (loadSettingsAndCreateClient_resume e (st, h))))
           = h\<lparr>externalAuths := externalAuths h @ [js ''openid-connect''],
                registrations := Suc (registrations h)\<rparr>"
  using assms
  by (simp_all add: loadSettingsAndCreateClient_resume_def newClient_def registerExternalAuth_def
      Let_def)

lemma resume_keeps:
  assumes "getSettings e = Inr settings"
    and "truthy (settings ''discover-url'')"
    and "settings ''client-id'' = JStr clientId" and "clientId \<noteq> []"
    and "discover e (settings ''discover-url'') = Inr iss"
    and "userAuthenticated st \<noteq> None"
  shows "userAuthenticated (fst (snd (loadSettingsAndCreateClient_resume e (st, h))))
           = userAuthenticated st"
    and "fst (snd (snd (loadSettingsAndCreateClient_resume e (st, h)))) = h"
  using assms
  by (simp_all add: loadSettingsAndCreateClient_resume_def newClient_def Let_def)

lemma example_env_simps:
  "getSettings example_env = Inr example_settings"
  "discover example_env url = Inr example_issuer"
  "res_redirect example_env = None"
  "res_cookie example_env = None"
  "randomBytes example_env = Inr example_iv"
  "codeVerifier example_env = Inr example_verifier"
  "codeChallenge example_env v = Inr (js ''E9Melhoa2OwvFrEMTJguCHaoeK1t8URWbuGJSstw-cM'')"
  by (simp_all add: example_env_def)

lemma example_reconfigured:
  "loadSettingsAndCreateClient example_env (example_store, example_host)
   = (None, example_store\<lparr>userAuthenticated := Some 1\<rparr>,
      \<lparr>externalAuths = [js ''openid-connect'', js ''openid-connect''], registrations = 2\<rparr>,
      [Log LDebug ''Discovered issuer %s.'' None])"
  by (simp add: loadSettingsAndCreateClient_def loadSettingsAndCreateClient_begin_def
      loadSettingsAndCreateClient_resume_def unregisterExternalAuth_def registerExternalAuth_def Let_def
      newClient_def example_env_def example_host_def example_settings_more js_nonempty
      example_store_def example_client_def)
    (simp add: js_def)

text \<open>
  C8, as stated, fails on the code.  After a first registration with the acceptance
  function number 0, a reconfiguration under unchanged settings clears the function
  before it reads the settings, so that a callback arriving then is answered with the
  error redirect; and it ends with another function, number 1.
\<close>

theorem acceptor_not_stable:
  "userAuthenticated example_store = Some 0
   \<and> handleCb example_env (fst (loadSettingsAndCreateClient_begin (example_store, example_host)))
        example_request
      = ([Log LInfo ''Received callback but cannot userAuthenticated function does not exist.'' None,
          Redirect (js ''/login?externalAuthError=true'')], None)
   \<and> userAuthenticated (fst (snd (loadSettingsAndCreateClient example_env (example_store, example_host))))
      = Some 1"
proof -
  have "userAuthenticated (fst (snd (loadSettingsAndCreateClient example_env (example_store, example_host))))
      = Some 1"
    by (simp add: example_reconfigured)
  moreover have "userAuthenticated example_store = Some 0"
    by (simp add: example_store_def)
  ultimately show ?thesis
    using begin_clears[of example_store example_host]
    by (simp add: handleCb_no_acceptor example_env_simps)
qed

text \<open>
  C8, amended.  Every reconfiguration first clears the acceptance function, and a
  callback that arrives while it is cleared is answered, on a response that accepts the
  redirect, with the error redirect.  When a reconfiguration has read a discover URL and
  a client ID that is a string and not empty and has discovered the issuer, it resumes
  and leaves an acceptance function in the store: if the store holds none at that
  moment, it registers the method again and stores the function of that new
  registration; if an overlapping reconfiguration has stored one meanwhile, it keeps
  that function and does not register again.  A reconfiguration that runs on its own
  therefore ends with the function of a new registration.
\<close>

theorem acceptor_recaptured:
  assumes "getSettings e = Inr settings"
    and "truthy (settings ''discover-url'')"
    and "settings ''client-id'' = JStr clientId" and "clientId \<noteq> []"
    and "discover e (settings ''discover-url'') = Inr iss"
  shows "userAuthenticated (fst (loadSettingsAndCreateClient_begin (st, h))) = None
     \<and> (res_redirect e' = None \<longrightarrow>
          handleCb e' (fst (loadSettingsAndCreateClient_begin (st, h))) req
          = ([Log LInfo ''Received callback but cannot userAuthenticated function does not exist.'' None,
              Redirect (js ''/login?externalAuthError=true'')], None))
     \<and> (userAuthenticated st1 = None \<longrightarrow>
          userAuthenticated (fst (snd (loadSettingsAndCreateClient_resume e (st1, h1))))
            = Some (registrations h1)
          \<and> fst (snd (snd (loadSettingsAndCreateClient_resume e (st1, h1))))
            = h1\<lparr>externalAuths := externalAuths h1 @ [js ''openid-connect''],
                 registrations := Suc (registrations h1)\<rparr>)
     \<and> (userAuthenticated st1 \<noteq> None \<longrightarrow>
          userAuthenticated (fst (snd (loadSettingsAndCreateClient_resume e (st1, h1))))
            = userAuthenticated st1
          \<and> fst (snd (snd (loadSettingsAndCreateClient_resume e (st1, h1)))) = h1)
     \<and> userAuthenticated (fst (snd (loadSettingsAndCreateClient e (st, h)))) = Some (registrations h)"
proof -
  note b = begin_clears[of st h]
  have "userAuthenticated (fst (snd (loadSettingsAndCreateClient e (st, h)))) = Some (registrations h)"
    unfolding loadSettingsAndCreateClient_def
    using resume_registers(1)[OF assms, of "fst (loadSettingsAndCreateClient_begin (st, h))"
        "snd (loadSettingsAndCreateClient_begin (st, h))"] b
    by simp
  then show ?thesis
    using b handleCb_no_acceptor[of "fst (loadSettingsAndCreateClient_begin (st, h))" e' req]
      resume_registers[OF assms, of st1 h1] resume_keeps[OF assms, of st1 h1]
    by simp
qed

theorem acceptor_recaptured_witness:
  "userAuthenticated (fst (loadSettingsAndCreateClient_begin (example_store, example_host))) = None
     \<and> handleCb example_env (fst (loadSettingsAndCreateClient_begin (example_store, example_host)))
          example_request
        = ([Log LInfo ''Received callback but cannot userAuthenticated function does not exist.'' None,
            Redirect (js ''/login?externalAuthError=true'')], None)
     \<and> userAuthenticated (fst (snd (loadSettingsAndCreateClient_resume example_env
          (loadSettingsAndCreateClient_begin (example_store, example_host))))) = Some 1
     \<and> userAuthenticated (fst (snd (loadSettingsAndCreateClient_resume example_env
          (example_store, example_host)))) = Some 0
     \<and> fst (snd (snd (loadSettingsAndCreateClient_resume example_env (example_store, example_host))))
          = example_host
     \<and> userAuthenticated (fst (snd (loadSettingsAndCreateClient example_env (example_store, example_host))))
          = Some 1"
proof -
  have t: "truthy (example_settings ''discover-url'')"
    and c: "example_settings ''client-id'' = JStr (js ''abc'')" "js ''abc'' \<noteq> []"
    by (simp_all add: example_settings_more js_nonempty)
  have s: "userAuthenticated example_store = Some 0" by (simp add: example_store_def)
  have h: "registrations example_host = 1" by (simp add: example_host_def)
  note b = begin_clears[of example_store example_host]
  from acceptor_recaptured[OF example_env_simps(1) t c example_env_simps(2),
      of example_store example_host example_env example_request
        "fst (loadSettingsAndCreateClient_begin (example_store, example_host))"
        "snd (loadSettingsAndCreateClient_begin (example_store, example_host))"]
    acceptor_recaptured[OF example_env_simps(1) t c example_env_simps(2),
      of example_store example_host example_env example_request example_store example_host]
  show ?thesis
    using b s h by (simp add: example_env_simps)
qed

section \<open>The authorization URL\<close>

lemma qs_stringify_member:
  "qs_stringify ps = Inr q \<Longrightarrow> (k, v) \<in> set ps \<Longrightarrow>
     \<exists>k' v'. qs_escape k = Inr k' \<and> qs_escape v = Inr v' \<and> sublist (k' @ js ''='' @ v') q"
proof (induction ps arbitrary: q)
  case Nil
  then show ?case by simp
next
  case (Cons p ps)
  from Cons.prems(1) obtain pk pv r where
    pk: "qs_escape (fst p) = Inr pk" and pv: "qs_escape (snd p) = Inr pv"
    and r: "qs_stringify ps = Inr r"
    and q: "q = pk @ js ''='' @ pv @ (if ps = [] then [] else js ''&'' @ r)"
    by (auto split: sum.splits)
  show ?case
  proof (cases "(k, v) = p")
    case True
    have "sublist (pk @ js ''='' @ pv) ([] @ (pk @ js ''='' @ pv) @ (if ps = [] then [] else js ''&'' @ r))"
      by (rule sublist_appendI)
    then have "sublist (pk @ js ''='' @ pv) q" by (simp add: q)
    with True pk pv show ?thesis by auto
  next
    case False
    with Cons.prems(2) have m: "(k, v) \<in> set ps" and ne: "ps \<noteq> []" by auto
    from Cons.IH[OF r m] obtain k' v' where
      e: "qs_escape k = Inr k'" "qs_escape v = Inr v'" and s: "sublist (k' @ js ''='' @ v') r"
      by blast
    from s obtain a b where "r = a @ (k' @ js ''='' @ v') @ b" by (auto simp: sublist_def)
    then have "q = (pk @ js ''='' @ pv @ js ''&'' @ a) @ (k' @ js ''='' @ v') @ b"
      using q ne by simp
    then have "sublist (k' @ js ''='' @ v') q" unfolding sublist_def by blast
    with e show ?thesis by blast
  qed
qed

lemma assign_same: "(k, v) \<in> set (assign k v acc)"
  by (induction acc) auto

lemma assign_other: "k' \<noteq> k \<Longrightarrow> (k', v') \<in> set acc \<Longrightarrow> (k', v') \<in> set (assign k v acc)"
  by (induction acc) auto

lemma fold_assign_keeps:
  "k \<notin> fst ` set ps \<Longrightarrow> (k, v) \<in> set acc \<Longrightarrow>
     (k, v) \<in> set (fold (\<lambda>p a. assign (fst p) (snd p) a) ps acc)"
proof (induction ps arbitrary: acc)
  case Nil
  then show ?case by simp
next
  case (Cons p ps)
  from Cons.prems have "k \<noteq> fst p" and "k \<notin> fst ` set ps" by auto
  with Cons.prems(2) have "(k, v) \<in> set (assign (fst p) (snd p) acc)"
    by (intro assign_other) auto
  with \<open>k \<notin> fst ` set ps\<close> show ?case by (simp add: Cons.IH)
qed

lemma spread_member:
  "distinct (map fst ps) \<Longrightarrow> (k, v) \<in> set ps \<Longrightarrow> (k, v) \<in> set (spread obj ps)"
  unfolding spread_def
proof (induction ps arbitrary: obj)
  case Nil
  then show ?case by simp
next
  case (Cons p ps)
  show ?case
  proof (cases "(k, v) = p")
    case True
    with Cons.prems(1) have "k \<notin> fst ` set ps" by force
    moreover have "(k, v) \<in> set (assign (fst p) (snd p) obj)"
      using True assign_same[of k v obj] by auto
    ultimately show ?thesis by (simp add: fold_assign_keeps)
  next
    case False
    with Cons.prems have "(k, v) \<in> set ps" and "distinct (map fst ps)" by auto
    then show ?thesis by (simp add: Cons.IH)
  qed
qed

lemma query_pairs_member: "(k, [v]) \<in> set obj \<Longrightarrow> (k, v) \<in> set (query_pairs obj)"
  by (force simp: query_pairs_def)

lemma request_object:
  "spread
     [(js ''client_id'', a), (js ''scope'', JStr (js ''openid'')), (js ''response_type'', b),
      (js ''redirect_uri'', d)]
     (requestParams cc)
   = [(js ''client_id'', a), (js ''scope'', JStr (js ''openid email profile'')),
      (js ''response_type'', b), (js ''redirect_uri'', d),
      (js ''response_mode'', JStr (js ''form_post'')), (js ''code_challenge'', JStr cc),
      (js ''code_challenge_method'', JStr (js ''S256''))]"
  by (simp add: spread_def requestParams_def js_def)

lemma request_params_distinct: "distinct (map fst (authorizationParams c (requestParams cc)))"
proof -
  have "distinct (map fst
     [(js ''client_id'', a), (js ''scope'', JStr (js ''openid email profile'')),
      (js ''response_type'', b), (js ''redirect_uri'', d),
      (js ''response_mode'', JStr (js ''form_post'')), (js ''code_challenge'', JStr cc),
      (js ''code_challenge_method'', JStr (js ''S256''))])" for a b d
    by (simp add: js_def)
  then show ?thesis
    unfolding authorizationParams_def request_object
    by (simp only: map_map comp_def fst_conv distinct_map_filter)
qed

lemma request_params_members:
  "(js ''scope'', js ''openid email profile'') \<in> set (authorizationParams c (requestParams cc))"
  "(js ''response_mode'', js ''form_post'') \<in> set (authorizationParams c (requestParams cc))"
  "(js ''code_challenge_method'', js ''S256'') \<in> set (authorizationParams c (requestParams cc))"
  unfolding authorizationParams_def request_object
  by (auto simp: image_iff)

lemma escape_constants:
  "qs_escape (js ''scope'') = Inr (js ''scope'')"
  "qs_escape (js ''openid email profile'') = Inr (js ''openid%20email%20profile'')"
  "qs_escape (js ''response_mode'') = Inr (js ''response_mode'')"
  "qs_escape (js ''form_post'') = Inr (js ''form_post'')"
  "qs_escape (js ''code_challenge_method'') = Inr (js ''code_challenge_method'')"
  "qs_escape (js ''S256'') = Inr (js ''S256'')"
  by (simp_all add: js_def unreserved_def is_high_surrogate_def is_low_surrogate_def
      percent_def utf8_of_code_point_def upper_hex_digit_def)

lemma authorization_url_member:
  assumes "authorizationUrl c (requestParams cc) = Inr url"
    and "(k, v) \<in> set (authorizationParams c (requestParams cc))"
  shows "\<exists>k' v'. qs_escape k = Inr k' \<and> qs_escape v = Inr v' \<and> sublist (k' @ js ''='' @ v') url"
proof -
  let ?ps = "authorizationParams c (requestParams cc)"
  from assms(1) obtain target where t: "authorization_endpoint (client_issuer c) = Some target"
    by (cases "authorization_endpoint (client_issuer c)") (simp_all add: authorizationUrl_def)
  from assms(1) t obtain q where
    q: "qs_stringify (query_pairs (spread (own_query target) (map (\<lambda>p. (fst p, [snd p])) ?ps))) = Inr q"
    by (cases "qs_stringify (query_pairs (spread (own_query target) (map (\<lambda>p. (fst p, [snd p])) ?ps)))")
      (simp_all add: authorizationUrl_def)
  have u: "url = before_query target @ (if q = [] then [] else js ''?'' @ q) @ fragment target"
    using assms(1) t q by (simp add: authorizationUrl_def)
  have d: "distinct (map fst (map (\<lambda>p. (fst p, [snd p])) ?ps))"
    using request_params_distinct[of c cc] by (simp add: comp_def)
  have "(k, [v]) \<in> set (map (\<lambda>p. (fst p, [snd p])) ?ps)"
    using assms(2) by force
  from spread_member[OF d this]
  have "(k, v) \<in> set (query_pairs (spread (own_query target) (map (\<lambda>p. (fst p, [snd p])) ?ps)))"
    by (rule query_pairs_member)
  from qs_stringify_member[OF q this] obtain k' v' where
    e: "qs_escape k = Inr k'" "qs_escape v = Inr v'" and s: "sublist (k' @ js ''='' @ v') q"
    by blast
  from s obtain a b where ab: "q = a @ (k' @ js ''='' @ v') @ b" by (auto simp: sublist_def)
  then have "q \<noteq> []" by (simp add: js_def)
  with u have "url = before_query target @ js ''?'' @ q @ fragment target" by simp
  then have "url = (before_query target @ js ''?'' @ a) @ (k' @ js ''='' @ v') @ (b @ fragment target)"
    unfolding ab by simp
  then have "sublist (k' @ js ''='' @ v') url" unfolding sublist_def by blast
  with e show ?thesis by blast
qed

lemma authorization_url_contains:
  assumes "authorizationUrl c (requestParams cc) = Inr url"
  shows "sublist (js ''scope=openid%20email%20profile'') url
       \<and> sublist (js ''response_mode=form_post'') url
       \<and> sublist (js ''code_challenge_method=S256'') url"
proof -
  from authorization_url_member[OF assms request_params_members(1)]
  have "sublist (js ''scope'' @ js ''='' @ js ''openid%20email%20profile'') url"
    by (simp add: escape_constants)
  moreover from authorization_url_member[OF assms request_params_members(2)]
  have "sublist (js ''response_mode'' @ js ''='' @ js ''form_post'') url"
    by (simp add: escape_constants)
  moreover from authorization_url_member[OF assms request_params_members(3)]
  have "sublist (js ''code_challenge_method'' @ js ''='' @ js ''S256'') url"
    by (simp add: escape_constants)
  ultimately show ?thesis
    by (simp add: js_append[symmetric])
qed

lemma onAuthRequest_redirect:
  assumes "Redirect url \<in> set (onAuthRequest e w st)"
  shows "\<exists>c cc. client st = Some c \<and> authorizationUrl c (requestParams cc) = Inr url"
  using assms
  by (auto simp: onAuthRequest_def authRequestSteps_def Let_def split: sum.splits option.splits)

lemma example_authorization_url:
  "authorizationUrl example_client (requestParams (js ''E9Melhoa2OwvFrEMTJguCHaoeK1t8URWbuGJSstw-cM''))
   = Inr (js ''https://idp.example/authorize?client_id=abc&scope=openid%20email%20profile&response_type=code&redirect_uri=https%3A%2F%2Fpeertube.example%2Fplugins%2Fauth-openid-connect%2Frouter%2Fid-token-cb&response_mode=form_post&code_challenge=E9Melhoa2OwvFrEMTJguCHaoeK1t8URWbuGJSstw-cM&code_challenge_method=S256'')"
  by (simp add: authorizationUrl_def authorizationParams_def only_one_def
      query_pairs_def spread_def requestParams_def
      example_client_def example_issuer_def example_redirectUrl_def
      js_def unreserved_def is_high_surrogate_def is_low_surrogate_def
      percent_def utf8_of_code_point_def upper_hex_digit_def)

lemma encrypt_key_only: "secretKey st = secretKey st' \<Longrightarrow> encrypt r st s = encrypt r st' s"
  by (cases r) (simp_all add: encrypt_def)

lemma example_encrypt:
  "secretKey st = secretKey example_store \<Longrightarrow>
     encrypt (Inr example_iv) st example_verifier = Inr example_token"
  using example_token_roundtrip encrypt_key_only[of st example_store] by simp

lemma https_prefix: "prefix (js ''https://'') (js ''https://peertube.example'')"
  by (simp add: js_def)

lemma example_auth_request:
  "onAuthRequest example_env (js ''https://peertube.example'') (example_store\<lparr>userAuthenticated := Some 1\<rparr>)
   = [SetCookie cookieName example_token
        \<lparr>secure = True, httpOnly = True, sameSite = js ''none'', maxAge = 600000\<rparr>,
      Redirect (js ''https://idp.example/authorize?client_id=abc&scope=openid%20email%20profile&response_type=code&redirect_uri=https%3A%2F%2Fpeertube.example%2Fplugins%2Fauth-openid-connect%2Frouter%2Fid-token-cb&response_mode=form_post&code_challenge=E9Melhoa2OwvFrEMTJguCHaoeK1t8URWbuGJSstw-cM&code_challenge_method=S256'')]"
proof -
  have c: "client (example_store\<lparr>userAuthenticated := Some 1\<rparr>) = Some example_client"
    by (simp add: example_store_def)
  have k: "encrypt (Inr example_iv) (example_store\<lparr>userAuthenticated := Some 1\<rparr>) example_verifier
      = Inr example_token"
    by (rule example_encrypt) simp
  show ?thesis
    unfolding onAuthRequest_def authRequestSteps_def
    by (simp only: example_env_simps c k https_prefix example_authorization_url
        sum.case option.case Let_def prod.case)
      simp
qed

text \<open>
  C9.  For settings with a discover URL, a client ID (a string that is not empty) and no
  client secret, the client that \<^verbatim>\<open>loadSettingsAndCreateClient\<close> builds once the
  issuer is discovered has the token endpoint authentication method \<^verbatim>\<open>none\<close> and no
  secret, and every URL to which \<^verbatim>\<open>onAuthRequest\<close> then redirects contains
  \<^verbatim>\<open>code_challenge_method=S256\<close>, \<^verbatim>\<open>response_mode=form_post\<close> and the scope
  \<^verbatim>\<open>openid email profile\<close> (escaped as \<^verbatim>\<open>scope=openid%20email%20profile\<close>).
\<close>

theorem public_client_authorization_request:
  assumes "getSettings e = Inr settings"
    and "truthy (settings ''discover-url'')"
    and "settings ''client-id'' = JStr clientId" and "clientId \<noteq> []"
    and "\<not> truthy (settings ''client-secret'')"
    and "discover e (settings ''discover-url'') = Inr iss"
    and "st' = fst (snd (loadSettingsAndCreateClient e (st, h)))"
  shows "(\<exists>c. client st' = Some c
            \<and> token_endpoint_auth_method (metadata c) = Some (js ''none'')
            \<and> client_secret (metadata c) = None)
       \<and> (\<forall>e' webserverUrl url. Redirect url \<in> set (onAuthRequest e' webserverUrl st') \<longrightarrow>
            sublist (js ''scope=openid%20email%20profile'') url
          \<and> sublist (js ''response_mode=form_post'') url
          \<and> sublist (js ''code_challenge_method=S256'') url)"
proof -
  have "\<exists>c. client st' = Some c
            \<and> token_endpoint_auth_method (metadata c) = Some (js ''none'')
            \<and> client_secret (metadata c) = None"
    using assms
    by (simp add: loadSettingsAndCreateClient_def loadSettingsAndCreateClient_begin_def
      loadSettingsAndCreateClient_resume_def newClient_def unregisterExternalAuth_def
      registerExternalAuth_def Let_def)
  moreover have "sublist (js ''scope=openid%20email%20profile'') url
          \<and> sublist (js ''response_mode=form_post'') url
          \<and> sublist (js ''code_challenge_method=S256'') url"
    if "Redirect url \<in> set (onAuthRequest e' w st')" for e' w url
    using onAuthRequest_redirect[OF that] authorization_url_contains by blast
  ultimately show ?thesis by blast
qed

theorem public_client_authorization_request_witness:
  "(\<exists>c. client (example_store\<lparr>userAuthenticated := Some 1\<rparr>) = Some c
            \<and> token_endpoint_auth_method (metadata c) = Some (js ''none'')
            \<and> client_secret (metadata c) = None)
   \<and> (\<exists>url. Redirect url \<in> set (onAuthRequest example_env (js ''https://peertube.example'')
                                   (example_store\<lparr>userAuthenticated := Some 1\<rparr>))
          \<and> sublist (js ''scope=openid%20email%20profile'') url
          \<and> sublist (js ''response_mode=form_post'') url
          \<and> sublist (js ''code_challenge_method=S256'') url)"
proof -
  have t: "truthy (example_settings ''discover-url'')"
    and c: "example_settings ''client-id'' = JStr (js ''abc'')" "js ''abc'' \<noteq> []"
    and n: "\<not> truthy (example_settings ''client-secret'')"
    by (simp_all add: example_settings_more js_nonempty)
  have s: "example_store\<lparr>userAuthenticated := Some 1\<rparr>
      = fst (snd (loadSettingsAndCreateClient example_env (example_store, example_host)))"
    by (simp add: example_reconfigured)
  from public_client_authorization_request[OF example_env_simps(1) t c n example_env_simps(2) s]
    example_auth_request
  show ?thesis by (metis list.set_intros(1,2))
qed

section \<open>The authorization request\<close>

lemma onAuthRequest_steps:
  "onAuthRequest e w st =
     fst (authRequestSteps e w st) @
     (case snd (authRequestSteps e w st) of
        None \<Rightarrow> []
      | Some err \<Rightarrow> [Log LError ''Cannot handle auth request.'' (Some err)])"
  by (simp add: onAuthRequest_def split: prod.split option.split)

text \<open>
  C7.  Whichever step of \<^verbatim>\<open>onAuthRequest\<close> throws (generating the verifier, deriving the
  challenge, building the URL on a missing client or in the library, encrypting, setting
  the cookie, redirecting), the error is logged and the response is neither redirected
  nor answered with an error: nothing is written to it, or, when it is the redirect that
  throws, only the cookie has been set on it.
\<close>

theorem auth_request_error_logged:
  "(codeVerifier e = Inl err \<longrightarrow>
      onAuthRequest e w st = [Log LError ''Cannot handle auth request.'' (Some err)])
   \<and> (codeVerifier e = Inr cv \<and> codeChallenge e cv = Inl err \<longrightarrow>
      onAuthRequest e w st = [Log LError ''Cannot handle auth request.'' (Some err)])
   \<and> (codeVerifier e = Inr cv \<and> codeChallenge e cv = Inr cc \<and> client st = None \<longrightarrow>
      onAuthRequest e w st = [Log LError ''Cannot handle auth request.'' (Some TypeError)])
   \<and> (codeVerifier e = Inr cv \<and> codeChallenge e cv = Inr cc \<and> client st = Some c
        \<and> authorizationUrl c (requestParams cc) = Inl err \<longrightarrow>
      onAuthRequest e w st = [Log LError ''Cannot handle auth request.'' (Some err)])
   \<and> (codeVerifier e = Inr cv \<and> codeChallenge e cv = Inr cc \<and> client st = Some c
        \<and> authorizationUrl c (requestParams cc) = Inr url
        \<and> encrypt (randomBytes e) st cv = Inl err \<longrightarrow>
      onAuthRequest e w st = [Log LError ''Cannot handle auth request.'' (Some err)])
   \<and> (codeVerifier e = Inr cv \<and> codeChallenge e cv = Inr cc \<and> client st = Some c
        \<and> authorizationUrl c (requestParams cc) = Inr url
        \<and> encrypt (randomBytes e) st cv = Inr token \<and> res_cookie e = Some err \<longrightarrow>
      onAuthRequest e w st = [Log LError ''Cannot handle auth request.'' (Some err)])
   \<and> (codeVerifier e = Inr cv \<and> codeChallenge e cv = Inr cc \<and> client st = Some c
        \<and> authorizationUrl c (requestParams cc) = Inr url
        \<and> encrypt (randomBytes e) st cv = Inr token \<and> res_cookie e = None
        \<and> res_redirect e = Some err \<longrightarrow>
      onAuthRequest e w st =
        [SetCookie cookieName token
           \<lparr>secure = prefix (js ''https://'') w, httpOnly = True, sameSite = js ''none'',
            maxAge = 600000\<rparr>,
         Log LError ''Cannot handle auth request.'' (Some err)])"
  by (simp add: onAuthRequest_steps authRequestSteps_def Let_def)

theorem auth_request_error_logged_witness:
  "onAuthRequest (example_env\<lparr>codeVerifier := Inl (LibraryError ''no entropy'')\<rparr>)
      (js ''https://peertube.example'') example_store
    = [Log LError ''Cannot handle auth request.'' (Some (LibraryError ''no entropy''))]
   \<and> onAuthRequest (example_env\<lparr>codeChallenge := (\<lambda>v. Inl (LibraryError ''no digest''))\<rparr>)
      (js ''https://peertube.example'') example_store
    = [Log LError ''Cannot handle auth request.'' (Some (LibraryError ''no digest''))]
   \<and> onAuthRequest example_env (js ''https://peertube.example'') (example_store\<lparr>client := None\<rparr>)
    = [Log LError ''Cannot handle auth request.'' (Some TypeError)]
   \<and> onAuthRequest example_env (js ''https://peertube.example'')
      (example_store\<lparr>client :=
         Some (example_client\<lparr>client_issuer := \<lparr>authorization_endpoint = None\<rparr>\<rparr>)\<rparr>)
    = [Log LError ''Cannot handle auth request.'' (Some TypeError)]
   \<and> onAuthRequest (example_env\<lparr>randomBytes := Inl (LibraryError ''no entropy'')\<rparr>)
      (js ''https://peertube.example'') example_store
    = [Log LError ''Cannot handle auth request.'' (Some (LibraryError ''no entropy''))]
   \<and> onAuthRequest (example_env\<lparr>res_cookie := Some (LibraryError ''headers sent'')\<rparr>)
      (js ''https://peertube.example'') example_store
    = [Log LError ''Cannot handle auth request.'' (Some (LibraryError ''headers sent''))]
   \<and> onAuthRequest (example_env\<lparr>res_redirect := Some (LibraryError ''headers sent'')\<rparr>)
      (js ''https://peertube.example'') example_store
    = [SetCookie cookieName example_token
         \<lparr>secure = True, httpOnly = True, sameSite = js ''none'', maxAge = 600000\<rparr>,
       Log LError ''Cannot handle auth request.'' (Some (LibraryError ''headers sent''))]"
proof -
  let ?w = "js ''https://peertube.example''"
  let ?cc = "js ''E9Melhoa2OwvFrEMTJguCHaoeK1t8URWbuGJSstw-cM''"
  let ?url = "js ''https://idp.example/authorize?client_id=abc&scope=openid%20email%20profile&response_type=code&redirect_uri=https%3A%2F%2Fpeertube.example%2Fplugins%2Fauth-openid-connect%2Frouter%2Fid-token-cb&response_mode=form_post&code_challenge=E9Melhoa2OwvFrEMTJguCHaoeK1t8URWbuGJSstw-cM&code_challenge_method=S256''"
  have c: "client example_store = Some example_client" by (simp add: example_store_def)
  have k: "encrypt (Inr example_iv) example_store example_verifier = Inr example_token"
    by (rule example_encrypt) simp
  have n: "authorizationUrl (example_client\<lparr>client_issuer := \<lparr>authorization_endpoint = None\<rparr>\<rparr>)
      (requestParams ?cc) = Inl TypeError"
    by (simp add: authorizationUrl_def)
  have f: "encrypt (Inl (LibraryError ''no entropy'')) example_store example_verifier
      = Inl (LibraryError ''no entropy'')"
    by (simp add: encrypt_def)
  have "onAuthRequest (example_env\<lparr>codeVerifier := Inl (LibraryError ''no entropy'')\<rparr>) ?w example_store
    = [Log LError ''Cannot handle auth request.'' (Some (LibraryError ''no entropy''))]"
    using auth_request_error_logged[of "example_env\<lparr>codeVerifier := Inl (LibraryError ''no entropy'')\<rparr>"
        "LibraryError ''no entropy''" ?w example_store example_verifier ?cc example_client ?url
        example_token]
    by simp
  moreover
  have "onAuthRequest (example_env\<lparr>codeChallenge := (\<lambda>v. Inl (LibraryError ''no digest''))\<rparr>) ?w
      example_store
    = [Log LError ''Cannot handle auth request.'' (Some (LibraryError ''no digest''))]"
    using auth_request_error_logged[of
        "example_env\<lparr>codeChallenge := (\<lambda>v. Inl (LibraryError ''no digest''))\<rparr>"
        "LibraryError ''no digest''" ?w example_store example_verifier ?cc example_client ?url
        example_token]
    by (simp add: example_env_def)
  moreover
  have "onAuthRequest example_env ?w (example_store\<lparr>client := None\<rparr>)
    = [Log LError ''Cannot handle auth request.'' (Some TypeError)]"
    using auth_request_error_logged[of example_env TypeError ?w "example_store\<lparr>client := None\<rparr>"
        example_verifier ?cc example_client ?url example_token]
    by (simp add: example_env_simps)
  moreover
  have "onAuthRequest example_env ?w
      (example_store\<lparr>client :=
         Some (example_client\<lparr>client_issuer := \<lparr>authorization_endpoint = None\<rparr>\<rparr>)\<rparr>)
    = [Log LError ''Cannot handle auth request.'' (Some TypeError)]"
    using auth_request_error_logged[of example_env TypeError ?w
        "example_store\<lparr>client :=
           Some (example_client\<lparr>client_issuer := \<lparr>authorization_endpoint = None\<rparr>\<rparr>)\<rparr>"
        example_verifier ?cc
        "example_client\<lparr>client_issuer := \<lparr>authorization_endpoint = None\<rparr>\<rparr>" ?url example_token]
    by (simp add: example_env_simps n)
  moreover
  have "onAuthRequest (example_env\<lparr>randomBytes := Inl (LibraryError ''no entropy'')\<rparr>) ?w example_store
    = [Log LError ''Cannot handle auth request.'' (Some (LibraryError ''no entropy''))]"
    using auth_request_error_logged[of "example_env\<lparr>randomBytes := Inl (LibraryError ''no entropy'')\<rparr>"
        "LibraryError ''no entropy''" ?w example_store example_verifier ?cc example_client ?url
        example_token]
    by (simp add: example_env_simps c example_authorization_url f)
  moreover
  have "onAuthRequest (example_env\<lparr>res_cookie := Some (LibraryError ''headers sent'')\<rparr>) ?w example_store
    = [Log LError ''Cannot handle auth request.'' (Some (LibraryError ''headers sent''))]"
    using auth_request_error_logged[of "example_env\<lparr>res_cookie := Some (LibraryError ''headers sent'')\<rparr>"
        "LibraryError ''headers sent''" ?w example_store example_verifier ?cc example_client ?url
        example_token]
    by (simp add: example_env_simps c example_authorization_url k)
  moreover
  have "onAuthRequest (example_env\<lparr>res_redirect := Some (LibraryError ''headers sent'')\<rparr>) ?w example_store
    = [SetCookie cookieName example_token
         \<lparr>secure = True, httpOnly = True, sameSite = js ''none'', maxAge = 600000\<rparr>,
       Log LError ''Cannot handle auth request.'' (Some (LibraryError ''headers sent''))]"
    using auth_request_error_logged[of "example_env\<lparr>res_redirect := Some (LibraryError ''headers sent'')\<rparr>"
        "LibraryError ''headers sent''" ?w example_store example_verifier ?cc example_client ?url
        example_token]
    by (simp add: example_env_simps c example_authorization_url k https_prefix)
  ultimately show ?thesis by blast
qed

end
